theory Spec2Isabelle
  imports Main "HOL-Library.Word"
begin

unbundle bit_operations_syntax

section \<open>The consensus core of gobft (bftcore.go)\<close>

text \<open>
  A shallow embedding of \<^verbatim>\<open>bftcore.go\<close>. The Go receiver \<^verbatim>\<open>c *Core\<close> is an explicit
  state that every function takes and returns. A Go panic (\<^verbatim>\<open>common.PanicSanity\<close>,
  \<^verbatim>\<open>panic\<close>, a nil dereference) is the left summand of the result, with the state the
  core has when the panic leaves the function; nothing in this file recovers from a panic.
  Logging is dropped.

  Machine integers: \<^verbatim>\<open>int64\<close> heights are 64-bit words; Go's \<^verbatim>\<open>int\<close> (rounds) is
  taken at its 64-bit width (amd64). \<open>+\<close> wraps; comparisons are the signed ones
  (\<open><s\<close>, \<open>\<le>s\<close>). Points in time and durations are integers (an offset from the zero
  \<^verbatim>\<open>time.Time\<close>, so \<^verbatim>\<open>IsZero\<close> is \<open>= 0\<close>); no property below depends on them.
\<close>

subsection \<open>Messages\<close>

type_synonym int64 = "64 word"
type_synonym goint = "64 word"
type_synonym Time = int
type_synonym Duration = int
type_synonym PubKey = nat
type_synonym Sig = nat
type_synonym Peer = nat

text \<open>
  Modelled from the spec: \<^verbatim>\<open>message.ProposedData\<close> (declared outside bftcore.go) is an
  opaque equatable value with one reserved value \<^verbatim>\<open>NilData\<close>; the spec's scenarios take
  \<^verbatim>\<open>NilData = 0\<close>, \<^verbatim>\<open>X = 1\<close>, \<^verbatim>\<open>Y = 2\<close>.
\<close>

type_synonym ProposedData = nat

definition NilData :: ProposedData where
  "NilData = 0"

text \<open>
  Modelled from the spec: the vote type codes. A vote's type is a raw code in Go, and
  \<^verbatim>\<open>addVote\<close> has a default branch for a code that is none of the three; \<open>OtherType\<close>
  stands for every such code.
\<close>

datatype VoteType = ProposalType | PrevoteType | PrecommitType | OtherType

text \<open>
  Modelled from the spec: \<^verbatim>\<open>Vote{type, height, round, proposed, prev, address, signature}\<close>.
\<close>

record Vote =
  vType :: VoteType
  vHeight :: int64
  vRound :: goint
  Proposed :: ProposedData
  Prev :: ProposedData
  Address :: PubKey
  Signature :: Sig

text \<open>
  Modelled from the spec: \<^verbatim>\<open>message.NewVote(type, height, round, &proposed, &prev)\<close> builds
  an unsigned vote; signer and signature are filled in by \<^verbatim>\<open>Sign\<close>.
\<close>

definition NewVote :: "VoteType \<Rightarrow> int64 \<Rightarrow> goint \<Rightarrow> ProposedData \<Rightarrow> ProposedData \<Rightarrow> Vote" where
  "NewVote t h r d p =
     \<lparr>vType = t, vHeight = h, vRound = r, Proposed = d, Prev = p, Address = 0, Signature = 0\<rparr>"

text \<open>
  Modelled from the spec: \<^verbatim>\<open>Commit{height, round, proposedData, precommits, commitTime,
  signature}\<close>; \<^verbatim>\<open>msg.Height()\<close> reads the height.
\<close>

record Commit =
  cHeight :: int64
  cRound :: goint
  cProposedData :: ProposedData
  cPrecommits :: "Vote list"
  cCommitTime :: Time
  cSignature :: Sig

text \<open>Modelled from the spec: \<^verbatim>\<open>FetchVotesReq{height, round, type, bitmap}\<close>, signed by \<^verbatim>\<open>Sign\<close>.\<close>

record FetchVotesReq =
  qType :: VoteType
  qHeight :: int64
  qRound :: goint
  qBitmap :: "bool list"
  qSignature :: Sig

text \<open>Modelled from the spec: \<^verbatim>\<open>FetchVotesRsp{height, round, type, missingVotes, sig}\<close>.\<close>

record FetchVotesRsp =
  pType :: VoteType
  pHeight :: int64
  pRound :: goint
  MissingVotes :: "Vote list"
  pSignature :: Sig

text \<open>
  \<^verbatim>\<open>message.ConsensusMessage\<close> is an interface; \<^verbatim>\<open>handleMsg\<close> switches on the dynamic type
  and has a default branch (\<open>MsgUnknown\<close>).
\<close>

datatype ConsensusMessage =
    MsgVote Vote
  | MsgCommit Commit
  | MsgFetchVotesReq FetchVotesReq
  | MsgFetchVotesRsp FetchVotesRsp
  | MsgUnknown

text \<open>
  \<^verbatim>\<open>msgInfo{Msg, Peer}\<close> as bftcore.go builds and reads it; the peer is nil for the node's own
  messages.
\<close>

record msgInfo =
  Msg :: ConsensusMessage
  Peer :: "Peer option"

text \<open>Modelled from the spec: \<^verbatim>\<open>AppState{lastHeight, lastProposedData}\<close>.\<close>

record AppState =
  LastHeight :: int64
  LastProposedData :: ProposedData

subsection \<open>Steps, timeouts, errors\<close>

text \<open>
  Modelled from the spec: the declaration of \<^verbatim>\<open>RoundStepType\<close> is outside bftcore.go; the
  spec lists the steps in this order, and the guards of the transitions compare steps in it.
\<close>

datatype RoundStepType =
    RoundStepNewHeight
  | RoundStepNewRound
  | RoundStepPropose
  | RoundStepPrevote
  | RoundStepPrevoteFetch
  | RoundStepPrevoteWait
  | RoundStepPrecommit
  | RoundStepPrecommitFetch
  | RoundStepPrecommitWait
  | RoundStepCommit

fun stepNum :: "RoundStepType \<Rightarrow> nat" where
  "stepNum RoundStepNewHeight = 1"
| "stepNum RoundStepNewRound = 2"
| "stepNum RoundStepPropose = 3"
| "stepNum RoundStepPrevote = 4"
| "stepNum RoundStepPrevoteFetch = 5"
| "stepNum RoundStepPrevoteWait = 6"
| "stepNum RoundStepPrecommit = 7"
| "stepNum RoundStepPrecommitFetch = 8"
| "stepNum RoundStepPrecommitWait = 9"
| "stepNum RoundStepCommit = 10"

text \<open>\<^verbatim>\<open>timeoutInfo{Duration, Height, Round, Step}\<close> as bftcore.go builds and reads it.\<close>

record timeoutInfo =
  tiDuration :: Duration
  tiHeight :: int64
  tiRound :: goint
  tiStep :: RoundStepType

text \<open>
  The Go \<^verbatim>\<open>error\<close> values that reach \<^verbatim>\<open>tryAddVote\<close> (the sentinels that bftcore.go names are
  declared outside it). \<open>ErrVoteConflictingVotes\<close> is the
  error type \<^verbatim>\<open>*ErrVoteConflictingVotes\<close>; \<open>ErrVoteOther\<close> stands for every other error a
  vote set may return (bad signature, unknown signer, unexpected step, ...).
\<close>

datatype vote_error =
    ErrVoteHeightMismatch
  | ErrVoteConflictingVotes Vote Vote
  | ErrAddingVote
  | ErrInvalidProposer
  | ErrInvalidProposalSignature
  | ErrVoteOther nat

datatype panic =
    PanicSanity
  | NilPointer
  | InvalidTimeoutStep
  | UnexpectedVoteType

definition andThen :: "'e + 'a \<Rightarrow> ('a \<Rightarrow> 'e + 'b) \<Rightarrow> 'e + 'b" where
  "andThen m f = (case m of Inl e \<Rightarrow> Inl e | Inr x \<Rightarrow> f x)"

subsection \<open>Collaborators\<close>

text \<open>
  The vote-set engine (\<^verbatim>\<open>VoteSet\<close>, \<^verbatim>\<open>HeightVoteSet\<close>), the messages' \<^verbatim>\<open>ValidateBasic\<close> and the
  constant \<^verbatim>\<open>FetchInterval\<close> are code of the repository outside bftcore.go. They are
  parameters of the model: \<open>'hvs\<close> is the state of a \<^verbatim>\<open>HeightVoteSet\<close>, \<open>'vs\<close> of a
  \<^verbatim>\<open>VoteSet\<close>, and every method is a function on them. Methods that mutate return the new
  state. \<^verbatim>\<open>MakeCommit\<close> may fail (the spec: legal only with a +2/3 majority for a non-nil
  value).
\<close>

record ('hvs, 'vs) VoteOps =
  NewHeightVoteSet :: "int64 \<Rightarrow> ProposedData \<Rightarrow> 'hvs"
  Prevotes :: "'hvs \<Rightarrow> goint \<Rightarrow> 'vs"
  Precommits :: "'hvs \<Rightarrow> goint \<Rightarrow> 'vs"
  SetRound :: "'hvs \<Rightarrow> goint \<Rightarrow> 'hvs"
  hvsAddVote :: "'hvs \<Rightarrow> Vote \<Rightarrow> bool \<times> vote_error option \<times> 'hvs"
  POLInfo :: "'hvs \<Rightarrow> goint \<times> ProposedData"
  vsAddVote :: "'vs \<Rightarrow> Vote \<Rightarrow> bool \<times> vote_error option \<times> 'vs"
  TwoThirdsMajority :: "'vs \<Rightarrow> ProposedData \<times> bool"
  HasTwoThirdsMajority :: "'vs \<Rightarrow> bool"
  HasTwoThirdsAny :: "'vs \<Rightarrow> bool"
  HasAll :: "'vs \<Rightarrow> bool"
  MakeCommit :: "'vs \<Rightarrow> panic + Commit"
  MakeFetchVotesReq :: "'vs \<Rightarrow> FetchVotesReq"
  MakeFetchVotesRsp :: "'vs \<Rightarrow> FetchVotesReq \<Rightarrow> FetchVotesRsp option"
  CommitValidateBasic :: "Commit \<Rightarrow> bool"
  ReqValidateBasic :: "FetchVotesReq \<Rightarrow> bool"
  RspValidateBasic :: "FetchVotesRsp \<Rightarrow> bool"
  FetchInterval :: Duration

text \<open>
  The host's interfaces (\<^verbatim>\<open>custom.ICommittee\<close>, \<^verbatim>\<open>custom.IPrivValidator\<close>) and the clock,
  as they answer during one event. \<open>GetAppState\<close> is asked after a commit was delivered
  and reads the commits delivered so far.
\<close>

record Env =
  GetSelfPubKey :: PubKey
  IsValidator :: "PubKey \<Rightarrow> bool"
  GetCurrentProposer :: "goint \<Rightarrow> PubKey"
  DecidesProposal :: ProposedData
  ValidateProposal :: "ProposedData \<Rightarrow> bool"
  GetAppState :: "Commit list \<Rightarrow> AppState option"
  GetCommitHistory :: "int64 \<Rightarrow> Commit option"
  VerifySignature :: "Vote \<Rightarrow> bool"
  Sign :: "ConsensusMessage \<Rightarrow> Sig"
  Now :: Time

text \<open>
  Modelled from the spec: \<^verbatim>\<open>Config\<close> (declared outside bftcore.go) holds the timeout
  functions and \<^verbatim>\<open>SkipTimeoutCommit\<close>.
\<close>

record Config =
  SkipTimeoutCommit :: bool
  cfgPropose :: "goint \<Rightarrow> Duration"
  cfgPrevote :: "goint \<Rightarrow> Duration"
  cfgPrecommit :: "goint \<Rightarrow> Duration"
  cfgCommit :: "Time \<Rightarrow> Time"

subsection \<open>State\<close>

text \<open>
  Modelled from the spec: the fields of \<^verbatim>\<open>RoundState\<close> (declared outside bftcore.go), which
  \<^verbatim>\<open>Core\<close> embeds. Pointers that may be nil are options.
\<close>

record ('hvs, 'vs) RoundState =
  Height :: int64
  Round :: goint
  Step :: RoundStepType
  StartTime :: Time
  CommitTime :: Time
  Proposal :: "Vote option"
  LockedRound :: goint
  LockedProposal :: "Vote option"
  Votes :: "'hvs option"
  LastCommit :: "'vs option"
  CommitRound :: goint
  lastCommittedData :: ProposedData

text \<open>
  \<^verbatim>\<open>Core\<close> extends \<^verbatim>\<open>RoundState\<close>. \<open>msgQueue\<close> is the channel of internal messages and
  \<open>timeoutTicker\<close> the tickets handed to \<^verbatim>\<open>ScheduleTimeout\<close>, both in order. The effects
  on the committee are logs: \<open>broadcast\<close> (\<^verbatim>\<open>BroadCast\<close>), \<open>sent\<close> (\<^verbatim>\<open>Send\<close>) and
  \<open>committed\<close> (\<^verbatim>\<open>Commit\<close>).
\<close>

record ('hvs, 'vs) Core = "('hvs, 'vs) RoundState" +
  cfg :: Config
  hasRecvCommitRecords :: bool
  inFetch :: bool
  byzantinePrevote :: "ProposedData option"
  msgQueue :: "msgInfo list"
  timeoutTicker :: "timeoutInfo list"
  broadcast :: "ConsensusMessage list"
  sent :: "(ConsensusMessage \<times> Peer option) list"
  committed :: "Commit list"

text \<open>
  A crash: the panic and the state of the core when it was raised (after the deferred
  functions that Go runs while the panic unwinds).
\<close>

type_synonym ('hvs, 'vs) crash = "panic \<times> ('hvs, 'vs) Core"

subsection \<open>Helpers\<close>

definition scheduleTimeout ::
  "('hvs, 'vs) Core \<Rightarrow> Duration \<Rightarrow> int64 \<Rightarrow> goint \<Rightarrow> RoundStepType \<Rightarrow> ('hvs, 'vs) Core" where
  "scheduleTimeout c duration height round step =
     c\<lparr>timeoutTicker := timeoutTicker c @
         [\<lparr>tiDuration = duration, tiHeight = height, tiRound = round, tiStep = step\<rparr>]\<rparr>"

definition scheduleRound0 ::
  "Env \<Rightarrow> ('hvs, 'vs) Core \<Rightarrow> ('hvs, 'vs) Core \<Rightarrow> ('hvs, 'vs) Core" where
  "scheduleRound0 env c rs =
     scheduleTimeout c (StartTime rs - Now env) (Height rs) 0 RoundStepNewHeight"

definition updateRoundStep ::
  "('hvs, 'vs) Core \<Rightarrow> goint \<Rightarrow> RoundStepType \<Rightarrow> ('hvs, 'vs) Core" where
  "updateRoundStep c round step = c\<lparr>Round := round, Step := step, inFetch := False\<rparr>"

definition isReadyToPrevote :: "('hvs, 'vs) Core \<Rightarrow> bool" where
  "isReadyToPrevote c = (Proposal c \<noteq> None \<or> 0 \<le>s LockedRound c)"

definition isValidator :: "Env \<Rightarrow> bool" where
  "isValidator env = IsValidator env (GetSelfPubKey env)"

text \<open>
  Modelled from the spec: \<^verbatim>\<open>Sign(msg)\<close> signs a message in place: it stores the signer and
  the signature the private validator computes.
\<close>

definition signVote :: "Env \<Rightarrow> Vote \<Rightarrow> Vote" where
  "signVote env v = v\<lparr>Address := GetSelfPubKey env, Signature := Sign env (MsgVote v)\<rparr>"

definition signCommit :: "Env \<Rightarrow> Commit \<Rightarrow> Commit" where
  "signCommit env r = r\<lparr>cSignature := Sign env (MsgCommit r)\<rparr>"

definition signReq :: "Env \<Rightarrow> FetchVotesReq \<Rightarrow> FetchVotesReq" where
  "signReq env q = q\<lparr>qSignature := Sign env (MsgFetchVotesReq q)\<rparr>"

definition signRsp :: "Env \<Rightarrow> FetchVotesRsp \<Rightarrow> FetchVotesRsp" where
  "signRsp env p = p\<lparr>pSignature := Sign env (MsgFetchVotesRsp p)\<rparr>"

text \<open>
  \<^verbatim>\<open>sendInternalMessage\<close> enqueues on both branches of its \<^verbatim>\<open>select\<close> (directly, or from a
  goroutine when the queue is full); the model appends.
\<close>

definition sendInternalMessage :: "('hvs, 'vs) Core \<Rightarrow> msgInfo \<Rightarrow> ('hvs, 'vs) Core" where
  "sendInternalMessage c mi = c\<lparr>msgQueue := msgQueue c @ [mi]\<rparr>"

text \<open>
  \<^verbatim>\<open>signAddVote\<close> signs the vote it is given through a pointer, so the caller sees the
  signed vote: the model returns it beside the state.
\<close>

definition signAddVote :: "Env \<Rightarrow> ('hvs, 'vs) Core \<Rightarrow> Vote \<Rightarrow> ('hvs, 'vs) Core \<times> Vote" where
  "signAddVote env c vote =
     (if \<not> isValidator env then (c, vote)
      else
        let vote' = signVote env vote;
            c1 = sendInternalMessage c \<lparr>Msg = MsgVote vote', Peer = None\<rparr>
        in (c1\<lparr>broadcast := broadcast c1 @ [MsgVote vote']\<rparr>, vote'))"

definition setByzantinePrevote ::
  "('hvs, 'vs) Core \<Rightarrow> ProposedData option \<Rightarrow> ('hvs, 'vs) Core" where
  "setByzantinePrevote c data = c\<lparr>byzantinePrevote := data\<rparr>"

subsection \<open>updateToAppState\<close>

definition updateToAppState ::
  "('hvs, 'vs) VoteOps \<Rightarrow> Env \<Rightarrow> ('hvs, 'vs) Core \<Rightarrow> AppState option \<Rightarrow> ('hvs, 'vs) crash + ('hvs, 'vs) Core" where
  "updateToAppState ops env c appState =
     (case appState of
        None \<Rightarrow> Inr c
      | Some a \<Rightarrow>
          if -1 <s CommitRound c \<and> 0 <s Height c \<and> LastHeight a <s Height c then Inl (PanicSanity, c)
          else
            andThen
              (if -1 <s CommitRound c \<and> Votes c \<noteq> None then
                 (if \<not> HasTwoThirdsMajority ops (Precommits ops (the (Votes c)) (CommitRound c))
                  then Inl (PanicSanity, c)
                  else Inr (Some (Precommits ops (the (Votes c)) (CommitRound c))))
               else Inr None)
              (\<lambda>lastPrecommits.
                 let c1 = updateRoundStep (c\<lparr>Height := LastHeight a + 1\<rparr>) 0 RoundStepNewHeight;
                     c2 = (if CommitTime c1 = 0
                           then c1\<lparr>StartTime := cfgCommit (cfg c1) (Now env)\<rparr>
                           else c1\<lparr>StartTime := cfgCommit (cfg c1) (CommitTime c1)\<rparr>);
                     c3 = c2\<lparr>Proposal := None, LockedRound := -1, LockedProposal := None,
                             CommitRound := -1, LastCommit := lastPrecommits,
                             lastCommittedData := LastProposedData a\<rparr>
                 in Inr (c3\<lparr>Votes :=
                            Some (NewHeightVoteSet ops (Height c3) (lastCommittedData c3))\<rparr>)))"

subsection \<open>Prevote\<close>

definition enterPrevoteFetch ::
  "('hvs, 'vs) VoteOps \<Rightarrow> ('hvs, 'vs) Core \<Rightarrow> int64 \<Rightarrow> goint \<Rightarrow> ('hvs, 'vs) Core" where
  "enterPrevoteFetch ops c height round =
     scheduleTimeout (updateRoundStep c round RoundStepPrevoteFetch)
       (FetchInterval ops) height round RoundStepPrevoteFetch"

definition enterPrecommitFetch ::
  "('hvs, 'vs) VoteOps \<Rightarrow> ('hvs, 'vs) Core \<Rightarrow> int64 \<Rightarrow> goint \<Rightarrow> ('hvs, 'vs) Core" where
  "enterPrecommitFetch ops c height round =
     scheduleTimeout (updateRoundStep c round RoundStepPrecommitFetch)
       (FetchInterval ops) height round RoundStepPrecommitFetch"

text \<open>
  \<^verbatim>\<open>doPrevote\<close> builds the vote for \<^verbatim>\<open>c.Height\<close>, \<^verbatim>\<open>c.Round\<close>; its arguments
  \<^verbatim>\<open>height\<close>, \<^verbatim>\<open>round\<close> are not read.
\<close>

definition doPrevote ::
  "Env \<Rightarrow> ('hvs, 'vs) Core \<Rightarrow> int64 \<Rightarrow> goint \<Rightarrow> ('hvs, 'vs) Core" where
  "doPrevote env c height round =
     (if byzantinePrevote c \<noteq> None \<and> the (byzantinePrevote c) \<noteq> NilData then
        fst (signAddVote env c
               (NewVote PrevoteType (Height c) (Round c) (the (byzantinePrevote c))
                  (lastCommittedData c)))
      else
        let prevote =
              (if 0 \<le>s LockedRound c \<and> LockedProposal c \<noteq> None then
                 NewVote PrevoteType (Height c) (Round c) (Proposed (the (LockedProposal c)))
                   (lastCommittedData c)
               else if Proposal c \<noteq> None \<and> ValidateProposal env (Proposed (the (Proposal c))) then
                 NewVote PrevoteType (Height c) (Round c) (Proposed (the (Proposal c)))
                   (lastCommittedData c)
               else NewVote PrevoteType (Height c) (Round c) NilData (lastCommittedData c))
        in fst (signAddVote env c prevote))"

definition enterPrevote ::
  "('hvs, 'vs) VoteOps \<Rightarrow> Env \<Rightarrow> ('hvs, 'vs) Core \<Rightarrow> int64 \<Rightarrow> goint \<Rightarrow> ('hvs, 'vs) crash + ('hvs, 'vs) Core" where
  "enterPrevote ops env c height round =
     (if Height c \<noteq> height \<or> round <s Round c \<or>
         (Round c = round \<and> stepNum RoundStepPrevote \<le> stepNum (Step c))
      then Inr c
      else
        let c1 = doPrevote env c height round;
            c2 = updateRoundStep c1 round RoundStepPrevote
        in Inr (enterPrevoteFetch ops c2 height round))"

definition enterPrevoteWait ::
  "('hvs, 'vs) VoteOps \<Rightarrow> Env \<Rightarrow> ('hvs, 'vs) Core \<Rightarrow> int64 \<Rightarrow> goint \<Rightarrow> ('hvs, 'vs) crash + ('hvs, 'vs) Core" where
  "enterPrevoteWait ops env c height round =
     (if Height c \<noteq> height \<or> round <s Round c \<or>
         (Round c = round \<and> stepNum RoundStepPrevoteWait \<le> stepNum (Step c))
      then Inr c
      else
        case Votes c of
          None \<Rightarrow> Inl (NilPointer, c)
        | Some hvs \<Rightarrow>
            if \<not> HasTwoThirdsAny ops (Prevotes ops hvs round) then Inl (PanicSanity, c)
            else
              Inr (updateRoundStep
                     (scheduleTimeout c (cfgPrevote (cfg c) round) height round RoundStepPrevoteWait)
                     round RoundStepPrevoteWait))"

subsection \<open>Propose\<close>

definition doPropose ::
  "Env \<Rightarrow> ('hvs, 'vs) Core \<Rightarrow> int64 \<Rightarrow> goint \<Rightarrow> ('hvs, 'vs) Core" where
  "doPropose env c height round =
     (let data = DecidesProposal env;
          proposal = NewVote ProposalType height round data (lastCommittedData c);
          proposal1 = (if -1 <s LockedRound c \<and> LockedProposal c \<noteq> None
                       then proposal\<lparr>Proposed := Proposed (the (LockedProposal c))\<rparr>
                       else proposal);
          r = signAddVote env c proposal1
      in (fst r)\<lparr>Proposal := Some (snd r)\<rparr>)"

definition enterPropose ::
  "('hvs, 'vs) VoteOps \<Rightarrow> Env \<Rightarrow> ('hvs, 'vs) Core \<Rightarrow> int64 \<Rightarrow> goint \<Rightarrow> ('hvs, 'vs) crash + ('hvs, 'vs) Core" where
  "enterPropose ops env c height round =
     (if Height c \<noteq> height \<or> round <s Round c \<or>
         (Round c = round \<and> stepNum RoundStepPropose \<le> stepNum (Step c))
      then Inr c
      else
        let c1 = scheduleTimeout c (cfgPropose (cfg c) round) height round RoundStepPropose;
            self = GetSelfPubKey env;
            c2 = (if \<not> IsValidator env self then c1
                  else if GetCurrentProposer env (Round c1) = self
                       then doPropose env c1 height round
                       else c1);
            c3 = updateRoundStep c2 round RoundStepPropose
        in if isReadyToPrevote c3 then enterPrevote ops env c3 height (Round c3) else Inr c3)"

definition enterNewRound ::
  "('hvs, 'vs) VoteOps \<Rightarrow> Env \<Rightarrow> ('hvs, 'vs) Core \<Rightarrow> int64 \<Rightarrow> goint \<Rightarrow> ('hvs, 'vs) crash + ('hvs, 'vs) Core" where
  "enterNewRound ops env c height round =
     (if Height c \<noteq> height \<or> round <s Round c \<or>
         (Round c = round \<and> Step c \<noteq> RoundStepNewHeight)
      then Inr c
      else
        let c1 = updateRoundStep c round RoundStepNewRound;
            c2 = (if round = 0 then c1 else c1\<lparr>Proposal := None\<rparr>)
        in case Votes c2 of
             None \<Rightarrow> Inl (NilPointer, c2)
           | Some hvs \<Rightarrow>
               enterPropose ops env (c2\<lparr>Votes := Some (SetRound ops hvs (round + 1))\<rparr>) height round)"

definition fetchMissingVotes ::
  "('hvs, 'vs) VoteOps \<Rightarrow> Env \<Rightarrow> ('hvs, 'vs) Core \<Rightarrow> ('hvs, 'vs) crash + ('hvs, 'vs) Core" where
  "fetchMissingVotes ops env c =
     (if Step c = RoundStepPrevoteFetch \<or> Step c = RoundStepPrecommitFetch then
        (case Votes c of
           None \<Rightarrow> Inl (NilPointer, c)
         | Some hvs \<Rightarrow>
             let fvr = (if Step c = RoundStepPrevoteFetch
                        then MakeFetchVotesReq ops (Prevotes ops hvs (Round c))
                        else MakeFetchVotesReq ops (Precommits ops hvs (Round c)));
                 step = Step c;
                 c1 = c\<lparr>sent := sent c @ [(MsgFetchVotesReq (signReq env fvr), None)]\<rparr>;
                 c2 = scheduleTimeout c1 (FetchInterval ops) (Height c1) (Round c1) step
             in Inr (c2\<lparr>inFetch := True\<rparr>))
      else Inr c)"

subsection \<open>Precommit\<close>

text \<open>
  \<^verbatim>\<open>enterPrecommit\<close>'s deferred function: \<^verbatim>\<open>updateRoundStep(round, RoundStepPrecommit)\<close>, then
  \<^verbatim>\<open>enterPrecommitFetch(c.Height, c.Round)\<close>. It ends every return path below the guard,
  and Go also runs it when a panic leaves the function.
\<close>

definition precommitDone ::
  "('hvs, 'vs) VoteOps \<Rightarrow> ('hvs, 'vs) Core \<Rightarrow> goint \<Rightarrow> ('hvs, 'vs) Core" where
  "precommitDone ops c round =
     (let c1 = updateRoundStep c round RoundStepPrecommit
      in enterPrecommitFetch ops c1 (Height c1) (Round c1))"

definition enterPrecommit ::
  "('hvs, 'vs) VoteOps \<Rightarrow> Env \<Rightarrow> ('hvs, 'vs) Core \<Rightarrow> int64 \<Rightarrow> goint \<Rightarrow> ('hvs, 'vs) crash + ('hvs, 'vs) Core" where
  "enterPrecommit ops env c height round =
     (if Height c \<noteq> height \<or> round <s Round c \<or>
         (Round c = round \<and> stepNum RoundStepPrecommit \<le> stepNum (Step c))
      then Inr c
      else
        case Votes c of
          None \<Rightarrow> Inl (NilPointer, precommitDone ops c round)
        | Some hvs \<Rightarrow>
            let polkaData = fst (TwoThirdsMajority ops (Prevotes ops hvs round));
                ok = snd (TwoThirdsMajority ops (Prevotes ops hvs round));
                precommit = NewVote PrecommitType height round NilData (lastCommittedData c)
            in
              if \<not> ok then Inr (precommitDone ops (fst (signAddVote env c precommit)) round)
              else if fst (POLInfo ops hvs) \<noteq> round then Inl (PanicSanity, precommitDone ops c round)
              else if polkaData = NilData then
                (if LockedProposal c = None then
                   Inr (precommitDone ops (fst (signAddVote env c precommit)) round)
                 else
                   Inr (precommitDone ops
                          (fst (signAddVote env
                                  (c\<lparr>LockedRound := -1, LockedProposal := None\<rparr>) precommit))
                          round))
              else if 0 \<le>s LockedRound c \<and> LockedProposal c = None then Inl (NilPointer, precommitDone ops c round)
              else if 0 \<le>s LockedRound c \<and> Proposed (the (LockedProposal c)) = polkaData then
                Inr (precommitDone ops
                       (fst (signAddVote env (c\<lparr>LockedRound := round\<rparr>)
                               (precommit\<lparr>Proposed := polkaData\<rparr>)))
                       round)
              else if Proposal c \<noteq> None \<and> Proposed (the (Proposal c)) = polkaData then
                Inr (precommitDone ops
                       (fst (signAddVote env (c\<lparr>LockedRound := round, LockedProposal := Proposal c\<rparr>)
                               (precommit\<lparr>Proposed := polkaData\<rparr>)))
                       round)
              else
                Inr (precommitDone ops
                       (fst (signAddVote env (c\<lparr>LockedRound := -1, LockedProposal := None\<rparr>)
                               precommit))
                       round))"

definition enterPrecommitWait ::
  "('hvs, 'vs) VoteOps \<Rightarrow> Env \<Rightarrow> ('hvs, 'vs) Core \<Rightarrow> int64 \<Rightarrow> goint \<Rightarrow> ('hvs, 'vs) crash + ('hvs, 'vs) Core" where
  "enterPrecommitWait ops env c height round =
     (if Height c \<noteq> height \<or> round <s Round c \<or>
         (Round c = round \<and> stepNum RoundStepPrecommitWait \<le> stepNum (Step c))
      then Inr c
      else
        case Votes c of
          None \<Rightarrow> Inl (NilPointer, c)
        | Some hvs \<Rightarrow>
            if \<not> HasTwoThirdsAny ops (Precommits ops hvs round) then Inl (PanicSanity, c)
            else
              Inr (updateRoundStep
                     (scheduleTimeout c (cfgPrecommit (cfg c) round) height round
                        RoundStepPrecommitWait)
                     round RoundStepPrecommitWait))"

subsection \<open>Commit\<close>

definition doCommit ::
  "('hvs, 'vs) VoteOps \<Rightarrow> Env \<Rightarrow> ('hvs, 'vs) Core \<Rightarrow> ProposedData \<Rightarrow> ('hvs, 'vs) crash + ('hvs, 'vs) Core" where
  "doCommit ops env c data =
     (case Votes c of
        None \<Rightarrow> Inl (NilPointer, c)
      | Some hvs \<Rightarrow>
          andThen (case MakeCommit ops (Precommits ops hvs (CommitRound c)) of
                     Inl p \<Rightarrow> Inl (p, c)
                   | Inr records \<Rightarrow> Inr records)
            (\<lambda>records.
               if data \<noteq> cProposedData records then Inl (PanicSanity, c)
               else
                 let records1 = signCommit env (records\<lparr>cCommitTime := CommitTime c\<rparr>);
                     c1 = (if \<not> hasRecvCommitRecords c
                           then c\<lparr>broadcast := broadcast c @ [MsgCommit records1]\<rparr>
                           else c);
                     c2 = c1\<lparr>committed := committed c1 @ [records1]\<rparr>;
                     appState = GetAppState env (committed c2)
                 in andThen (updateToAppState ops env c2 appState)
                      (\<lambda>c3. let c4 = c3\<lparr>hasRecvCommitRecords := False\<rparr>
                            in Inr (scheduleRound0 env c4 c4))))"

definition enterCommit ::
  "('hvs, 'vs) VoteOps \<Rightarrow> Env \<Rightarrow> ('hvs, 'vs) Core \<Rightarrow> int64 \<Rightarrow> goint \<Rightarrow> ('hvs, 'vs) crash + ('hvs, 'vs) Core" where
  "enterCommit ops env c height commitRound =
     (if Height c \<noteq> height \<or> stepNum RoundStepCommit \<le> stepNum (Step c)
      then Inr c
      else
        case Votes c of
          None \<Rightarrow> Inl (NilPointer, c)
        | Some hvs \<Rightarrow>
            let maj23 = fst (TwoThirdsMajority ops (Precommits ops hvs commitRound));
                ok = snd (TwoThirdsMajority ops (Precommits ops hvs commitRound))
            in
              if \<not> ok then Inl (PanicSanity, c)
              else
                let c1 = c\<lparr>CommitRound := commitRound, CommitTime := Now env\<rparr>;
                    c2 = updateRoundStep c1 (Round c1) RoundStepCommit
                in doCommit ops env c2 maj23)"

subsection \<open>Votes\<close>

text \<open>\<^verbatim>\<open>defaultSetProposal\<close> returns its error beside the state.\<close>

definition defaultSetProposal ::
  "('hvs, 'vs) VoteOps \<Rightarrow> Env \<Rightarrow> ('hvs, 'vs) Core \<Rightarrow> Vote
     \<Rightarrow> ('hvs, 'vs) crash + (vote_error option \<times> ('hvs, 'vs) Core)" where
  "defaultSetProposal ops env c proposal =
     (if Proposal c \<noteq> None then Inr (None, c)
      else if vHeight proposal \<noteq> Height c \<or> vRound proposal \<noteq> Round c then Inr (None, c)
      else if Prev proposal \<noteq> lastCommittedData c then Inr (None, c)
      else if GetCurrentProposer env (Round c) \<noteq> Address proposal then
        Inr (Some ErrInvalidProposer, c)
      else if \<not> VerifySignature env proposal then Inr (Some ErrInvalidProposalSignature, c)
      else if ValidateProposal env (Proposed proposal) then
        andThen (enterPrevote ops env (c\<lparr>Proposal := Some proposal\<rparr>) (Height c) (Round c))
          (\<lambda>c'. Inr (None, c'))
      else Inr (None, c))"

text \<open>
  The parts of \<^verbatim>\<open>addVote\<close>, in separate definitions: the branch for a vote of the
  previous height, and the two cases of the \<^verbatim>\<open>switch vote.Type\<close> that runs after the vote
  was added to \<^verbatim>\<open>c.Votes\<close>. \<open>height\<close> is \<^verbatim>\<open>c.Height\<close> as read before the vote was added.
\<close>

definition addVoteLastCommit ::
  "('hvs, 'vs) VoteOps \<Rightarrow> Env \<Rightarrow> ('hvs, 'vs) Core \<Rightarrow> Vote
     \<Rightarrow> ('hvs, 'vs) crash + (bool \<times> vote_error option \<times> ('hvs, 'vs) Core)" where
  "addVoteLastCommit ops env c vote =
     (if \<not> (Step c = RoundStepNewHeight \<and> vType vote = PrecommitType) \<or> LastCommit c = None
      then Inr (False, Some ErrVoteHeightMismatch, c)
      else
        let r = vsAddVote ops (the (LastCommit c)) vote;
            added = fst r;
            err = fst (snd r);
            c1 = c\<lparr>LastCommit := Some (snd (snd r))\<rparr>
        in
          if \<not> added then Inr (added, err, c1)
          else if SkipTimeoutCommit (cfg c1) \<and> HasAll ops (the (LastCommit c1)) then
            andThen (enterNewRound ops env c1 (Height c1) 0) (\<lambda>c2. Inr (added, err, c2))
          else Inr (added, err, c1))"

text \<open>
  The block \<^verbatim>\<open>if polkaData, ok := prevotes.TwoThirdsMajority(); ok { ... }\<close> of the prevote
  case: unlock on a polka of a later round for another value, and drop a proposal that
  differs from a polka of the current round.
\<close>

definition prevotePolka ::
  "('hvs, 'vs) VoteOps \<Rightarrow> ('hvs, 'vs) Core \<Rightarrow> 'vs \<Rightarrow> Vote \<Rightarrow> ('hvs, 'vs) Core" where
  "prevotePolka ops c prevotes vote =
     (let polkaData = fst (TwoThirdsMajority ops prevotes);
          ok = snd (TwoThirdsMajority ops prevotes)
      in
        if ok then
          let c1 = (if LockedProposal c \<noteq> None \<and> LockedRound c <s vRound vote \<and>
                       Proposed (the (LockedProposal c)) \<noteq> polkaData
                    then c\<lparr>LockedRound := -1, LockedProposal := None\<rparr>
                    else c)
          in
            if polkaData \<noteq> NilData \<and> vRound vote = Round c1 \<and>
               Proposal c1 \<noteq> None \<and> Proposed (the (Proposal c1)) \<noteq> polkaData
            then c1\<lparr>Proposal := None\<rparr>
            else c1
        else c)"

definition addVotePrevote ::
  "('hvs, 'vs) VoteOps \<Rightarrow> Env \<Rightarrow> ('hvs, 'vs) Core \<Rightarrow> int64 \<Rightarrow> Vote \<Rightarrow> ('hvs, 'vs) crash + ('hvs, 'vs) Core" where
  "addVotePrevote ops env c height vote =
     (case Votes c of
        None \<Rightarrow> Inl (NilPointer, c)
      | Some hvs \<Rightarrow>
          let prevotes = Prevotes ops hvs (vRound vote);
              c2 = prevotePolka ops c prevotes vote
          in
            if Round c2 <s vRound vote \<and> HasTwoThirdsAny ops prevotes then
              enterNewRound ops env c2 height (vRound vote)
            else if Round c2 = vRound vote \<and> stepNum RoundStepPrevote \<le> stepNum (Step c2) then
              (if snd (TwoThirdsMajority ops prevotes) then
                 enterPrecommit ops env c2 height (vRound vote)
               else if HasTwoThirdsAny ops prevotes then
                 enterPrevoteWait ops env c2 height (vRound vote)
               else Inr c2)
            else if stepNum (Step c2) < stepNum RoundStepPrevote then
              (if Proposal c2 \<noteq> None then enterPrevote ops env c2 height (Round c2) else Inr c2)
            else Inr c2)"

definition addVotePrecommit ::
  "('hvs, 'vs) VoteOps \<Rightarrow> Env \<Rightarrow> ('hvs, 'vs) Core \<Rightarrow> int64 \<Rightarrow> Vote \<Rightarrow> ('hvs, 'vs) crash + ('hvs, 'vs) Core" where
  "addVotePrecommit ops env c height vote =
     (case Votes c of
        None \<Rightarrow> Inl (NilPointer, c)
      | Some hvs \<Rightarrow>
          let precommits = Precommits ops hvs (vRound vote)
          in
            if HasTwoThirdsMajority ops precommits then
              andThen (enterNewRound ops env c height (vRound vote))
                (\<lambda>c1. andThen (enterPrecommit ops env c1 height (vRound vote))
                   (\<lambda>c2. andThen (enterCommit ops env c2 height (vRound vote))
                      (\<lambda>c3. if SkipTimeoutCommit (cfg c3) \<and> HasAll ops precommits
                            then enterNewRound ops env c3 (Height c3) 0
                            else Inr c3)))
            else if Round c \<le>s vRound vote \<and> HasTwoThirdsAny ops precommits then
              andThen (enterNewRound ops env c height (vRound vote))
                (\<lambda>c1. enterPrecommitWait ops env c1 height (vRound vote))
            else Inr c)"

definition addVote ::
  "('hvs, 'vs) VoteOps \<Rightarrow> Env \<Rightarrow> ('hvs, 'vs) Core \<Rightarrow> Vote
     \<Rightarrow> ('hvs, 'vs) crash + (bool \<times> vote_error option \<times> ('hvs, 'vs) Core)" where
  "addVote ops env c vote =
     (if vHeight vote + 1 = Height c then addVoteLastCommit ops env c vote
      else if vHeight vote \<noteq> Height c then Inr (False, Some ErrVoteHeightMismatch, c)
      else if vType vote = ProposalType then
        andThen (defaultSetProposal ops env c vote) (\<lambda>r. Inr (False, fst r, snd r))
      else
        case Votes c of
          None \<Rightarrow> Inl (NilPointer, c)
        | Some hvs \<Rightarrow>
            let height = Height c;
                r = hvsAddVote ops hvs vote;
                added = fst r;
                err = fst (snd r);
                c1 = c\<lparr>Votes := Some (snd (snd r))\<rparr>
            in
              if \<not> added then Inr (added, err, c1)
              else if vType vote = PrevoteType then
                andThen (addVotePrevote ops env c1 height vote) (\<lambda>c2. Inr (added, err, c2))
              else if vType vote = PrecommitType then
                andThen (addVotePrecommit ops env c1 height vote) (\<lambda>c2. Inr (added, err, c2))
              else Inl (UnexpectedVoteType, c1))"

definition isConflictingVotes :: "vote_error \<Rightarrow> bool" where
  "isConflictingVotes e = (case e of ErrVoteConflictingVotes a b \<Rightarrow> True | _ \<Rightarrow> False)"

definition tryAddVote ::
  "('hvs, 'vs) VoteOps \<Rightarrow> Env \<Rightarrow> ('hvs, 'vs) Core \<Rightarrow> Vote
     \<Rightarrow> ('hvs, 'vs) crash + (bool \<times> vote_error option \<times> ('hvs, 'vs) Core)" where
  "tryAddVote ops env c vote =
     andThen (addVote ops env c vote)
       (\<lambda>r. let added = fst r; err = fst (snd r); c' = snd (snd r)
            in if err \<noteq> None then
                 (if err = Some ErrVoteHeightMismatch then Inr (added, err, c')
                  else if isConflictingVotes (the err) then Inr (added, err, c')
                  else Inr (added, Some ErrAddingVote, c'))
               else Inr (added, None, c'))"

text \<open>The loops \<^verbatim>\<open>for i := range votes { c.tryAddVote(votes[i]) }\<close>: the results are dropped.\<close>

fun tryAddVotes ::
  "('hvs, 'vs) VoteOps \<Rightarrow> Env \<Rightarrow> ('hvs, 'vs) Core \<Rightarrow> Vote list \<Rightarrow> ('hvs, 'vs) crash + ('hvs, 'vs) Core" where
  "tryAddVotes ops env c [] = Inr c"
| "tryAddVotes ops env c (v # vs) =
     andThen (tryAddVote ops env c v) (\<lambda>r. tryAddVotes ops env (snd (snd r)) vs)"

subsection \<open>The event handlers\<close>

definition handleFetch ::
  "('hvs, 'vs) VoteOps \<Rightarrow> Env \<Rightarrow> ('hvs, 'vs) Core \<Rightarrow> FetchVotesReq \<Rightarrow> Peer option
     \<Rightarrow> ('hvs, 'vs) crash + ('hvs, 'vs) Core" where
  "handleFetch ops env c msg p =
     (if \<not> ReqValidateBasic ops msg then Inr c
      else if qHeight msg <s Height c \<and> GetCommitHistory env (qHeight msg) = None then Inr c
      else
        andThen
          (if qHeight msg <s Height c then
             Inr (Some \<lparr>pType = PrecommitType, pHeight = qHeight msg, pRound = qRound msg,
                        MissingVotes = cPrecommits (the (GetCommitHistory env (qHeight msg))),
                        pSignature = 0\<rparr>)
           else if qHeight msg = Height c \<and> qRound msg \<le>s Round c then
             (if qType msg = PrevoteType \<or> qType msg = PrecommitType then
                (case Votes c of
                   None \<Rightarrow> Inl (NilPointer, c)
                 | Some hvs \<Rightarrow>
                     if qType msg = PrevoteType
                     then Inr (MakeFetchVotesRsp ops (Prevotes ops hvs (qRound msg)) msg)
                     else Inr (MakeFetchVotesRsp ops (Precommits ops hvs (qRound msg)) msg))
              else Inr None)
           else Inr None)
          (\<lambda>rsp. if rsp \<noteq> None
                 then Inr (c\<lparr>sent := sent c @ [(MsgFetchVotesRsp (signRsp env (the rsp)), p)]\<rparr>)
                 else Inr c))"

definition handleFetchRsp ::
  "('hvs, 'vs) VoteOps \<Rightarrow> Env \<Rightarrow> ('hvs, 'vs) Core \<Rightarrow> FetchVotesRsp \<Rightarrow> Peer option
     \<Rightarrow> ('hvs, 'vs) crash + ('hvs, 'vs) Core" where
  "handleFetchRsp ops env c msg p =
     (if Height c = pHeight msg \<and> Round c \<le>s pRound msg then
        (if Step c \<noteq> RoundStepPrevoteFetch \<and> Step c \<noteq> RoundStepPrecommitFetch then Inr c
         else if \<not> RspValidateBasic ops msg then Inr c
         else tryAddVotes ops env c (MissingVotes msg))
      else Inr c)"

definition handleMsg ::
  "('hvs, 'vs) VoteOps \<Rightarrow> Env \<Rightarrow> ('hvs, 'vs) Core \<Rightarrow> msgInfo \<Rightarrow> ('hvs, 'vs) crash + ('hvs, 'vs) Core" where
  "handleMsg ops env c mi =
     (case Msg mi of
        MsgVote msg \<Rightarrow>
          if \<not> isValidator env then Inr c
          else andThen (tryAddVote ops env c msg) (\<lambda>r. Inr (snd (snd r)))
      | MsgCommit msg \<Rightarrow>
          if \<not> CommitValidateBasic ops msg then Inr c
          else
            let c1 = (if cHeight msg = Height c then c\<lparr>hasRecvCommitRecords := True\<rparr> else c)
            in if Height c1 \<le>s cHeight msg then tryAddVotes ops env c1 (cPrecommits msg)
               else Inr c1
      | MsgFetchVotesReq msg \<Rightarrow> handleFetch ops env c msg (Peer mi)
      | MsgFetchVotesRsp msg \<Rightarrow> handleFetchRsp ops env c msg (Peer mi)
      | MsgUnknown \<Rightarrow> Inr c)"

text \<open>
  \<^verbatim>\<open>handleTimeout(ti, rs)\<close>: \<^verbatim>\<open>rs\<close> is the copy of the round state that \<^verbatim>\<open>receiveRoutine\<close>
  made before it waited for the event; the staleness filter reads it, the transitions
  read \<^verbatim>\<open>c\<close>.
\<close>

definition handleTimeout ::
  "('hvs, 'vs) VoteOps \<Rightarrow> Env \<Rightarrow> ('hvs, 'vs) Core \<Rightarrow> timeoutInfo \<Rightarrow> ('hvs, 'vs) Core
     \<Rightarrow> ('hvs, 'vs) crash + ('hvs, 'vs) Core" where
  "handleTimeout ops env c ti rs =
     (if tiHeight ti \<noteq> Height rs \<or> tiRound ti <s Round rs \<or>
         (tiRound ti = Round rs \<and> stepNum (tiStep ti) < stepNum (Step rs))
      then Inr c
      else
        case tiStep ti of
          RoundStepNewHeight \<Rightarrow> enterNewRound ops env c (tiHeight ti) 0
        | RoundStepNewRound \<Rightarrow> enterPropose ops env c (tiHeight ti) 0
        | RoundStepPropose \<Rightarrow> enterPrevote ops env c (tiHeight ti) (tiRound ti)
        | RoundStepPrevoteFetch \<Rightarrow> fetchMissingVotes ops env c
        | RoundStepPrevoteWait \<Rightarrow> enterPrecommit ops env c (tiHeight ti) (tiRound ti)
        | RoundStepPrecommitFetch \<Rightarrow> fetchMissingVotes ops env c
        | RoundStepPrecommitWait \<Rightarrow>
            andThen (enterPrecommit ops env c (tiHeight ti) (tiRound ti))
              (\<lambda>c1. enterNewRound ops env c1 (tiHeight ti) (tiRound ti + 1))
        | _ \<Rightarrow> Inl (InvalidTimeoutStep, c))"

text \<open>
  \<^verbatim>\<open>receiveRoutine\<close> handles one event at a time. An event carries what the host and the
  clock answer while it is handled; a run stops at the first panic.
\<close>

datatype event = EvMsg Env msgInfo | EvTimeout Env timeoutInfo

fun handleEvent ::
  "('hvs, 'vs) VoteOps \<Rightarrow> ('hvs, 'vs) Core \<Rightarrow> event \<Rightarrow> ('hvs, 'vs) crash + ('hvs, 'vs) Core" where
  "handleEvent ops c (EvMsg env mi) = handleMsg ops env c mi"
| "handleEvent ops c (EvTimeout env ti) = handleTimeout ops env c ti c"

fun receiveRoutine ::
  "('hvs, 'vs) VoteOps \<Rightarrow> ('hvs, 'vs) Core \<Rightarrow> event list \<Rightarrow> ('hvs, 'vs) crash + ('hvs, 'vs) Core" where
  "receiveRoutine ops c [] = Inr c"
| "receiveRoutine ops c (e # es) =
     andThen (handleEvent ops c e) (\<lambda>c'. receiveRoutine ops c' es)"

subsection \<open>The guarded transitions\<close>

text \<open>
  The seven transitions that the spec lists for the driver, under one name each, so that a
  statement can range over them; \<open>targetStep\<close> is the step a transition enters.
\<close>

datatype transition =
    ToNewRound
  | ToPropose
  | ToPrevote
  | ToPrevoteWait
  | ToPrecommit
  | ToPrecommitWait
  | ToCommit

fun enter ::
  "transition \<Rightarrow> ('hvs, 'vs) VoteOps \<Rightarrow> Env \<Rightarrow> ('hvs, 'vs) Core \<Rightarrow> int64 \<Rightarrow> goint
     \<Rightarrow> ('hvs, 'vs) crash + ('hvs, 'vs) Core" where
  "enter ToNewRound = enterNewRound"
| "enter ToPropose = enterPropose"
| "enter ToPrevote = enterPrevote"
| "enter ToPrevoteWait = enterPrevoteWait"
| "enter ToPrecommit = enterPrecommit"
| "enter ToPrecommitWait = enterPrecommitWait"
| "enter ToCommit = enterCommit"

fun targetStep :: "transition \<Rightarrow> RoundStepType" where
  "targetStep ToNewRound = RoundStepNewRound"
| "targetStep ToPropose = RoundStepPropose"
| "targetStep ToPrevote = RoundStepPrevote"
| "targetStep ToPrevoteWait = RoundStepPrevoteWait"
| "targetStep ToPrecommit = RoundStepPrecommit"
| "targetStep ToPrecommitWait = RoundStepPrecommitWait"
| "targetStep ToCommit = RoundStepCommit"

text \<open>
  The precondition check in the spec's words: the arguments name the current height and a
  round \<open>\<ge>\<close> the current round, and the current step is strictly before the target step.
\<close>

definition specGuard :: "transition \<Rightarrow> ('hvs, 'vs) Core \<Rightarrow> int64 \<Rightarrow> goint \<Rightarrow> bool" where
  "specGuard t c h r =
     (h = Height c \<and> Round c \<le>s r \<and> stepNum (Step c) < stepNum (targetStep t))"

text \<open>The staleness filter of \<^verbatim>\<open>handleTimeout\<close>, negated: the ticket is handled.\<close>

definition passesFilter :: "timeoutInfo \<Rightarrow> ('hvs, 'vs) Core \<Rightarrow> bool" where
  "passesFilter ti rs =
     (tiHeight ti = Height rs \<and> Round rs \<le>s tiRound ti \<and>
      (tiRound ti = Round rs \<longrightarrow> stepNum (Step rs) \<le> stepNum (tiStep ti)))"

subsection \<open>A committee of one validator\<close>

text \<open>
  An instance of the parameters, to run the model on concrete inputs: the vote sets of a
  committee with a single validator of power 1. A vote set is the list of its votes in
  arrival order; one vote is a +2/3 majority (for its value) and is all the votes.
  \<open>MakeCommit\<close> fails unless the majority is for a non-nil value, as the spec has it.
  \<open>POLInfo\<close> names the highest round whose prevotes have a +2/3 majority for a non-nil
  value, and that value, as the spec has it (section 4.2), and round \<open>-1\<close> when there is
  none; the instance tracks no watermark of rounds (\<open>SetRound\<close> changes nothing).
\<close>

definition soloOps :: "(Vote list, Vote list) VoteOps" where
  "soloOps =
     \<lparr>NewHeightVoteSet = (\<lambda>h d. []),
      Prevotes = (\<lambda>hvs r. filter (\<lambda>v. vType v = PrevoteType \<and> vRound v = r) hvs),
      Precommits = (\<lambda>hvs r. filter (\<lambda>v. vType v = PrecommitType \<and> vRound v = r) hvs),
      SetRound = (\<lambda>hvs r. hvs),
      hvsAddVote = (\<lambda>hvs v. if v \<in> set hvs then (False, None, hvs) else (True, None, hvs @ [v])),
      POLInfo = (\<lambda>hvs. fold (\<lambda>v best.
                          case filter (\<lambda>w. vType w = PrevoteType \<and> vRound w = vRound v) hvs of
                            [] \<Rightarrow> best
                          | w # ws \<Rightarrow>
                              if vType v = PrevoteType \<and> Proposed w \<noteq> NilData \<and>
                                 fst best <s vRound v
                              then (vRound v, Proposed w) else best)
                        hvs (-1, NilData)),
      vsAddVote = (\<lambda>vs v. if v \<in> set vs then (False, None, vs) else (True, None, vs @ [v])),
      TwoThirdsMajority = (\<lambda>vs. case vs of [] \<Rightarrow> (NilData, False) | v # vs' \<Rightarrow> (Proposed v, True)),
      HasTwoThirdsMajority = (\<lambda>vs. vs \<noteq> []),
      HasTwoThirdsAny = (\<lambda>vs. vs \<noteq> []),
      HasAll = (\<lambda>vs. vs \<noteq> []),
      MakeCommit = (\<lambda>vs. case vs of
                            [] \<Rightarrow> Inl PanicSanity
                          | v # vs' \<Rightarrow>
                              if Proposed v = NilData then Inl PanicSanity
                              else Inr \<lparr>cHeight = vHeight v, cRound = vRound v,
                                        cProposedData = Proposed v, cPrecommits = vs,
                                        cCommitTime = 0, cSignature = 0\<rparr>),
      MakeFetchVotesReq = (\<lambda>vs. \<lparr>qType = PrevoteType, qHeight = 0, qRound = 0,
                                  qBitmap = map (\<lambda>v. True) vs, qSignature = 0\<rparr>),
      MakeFetchVotesRsp = (\<lambda>vs q. Some \<lparr>pType = qType q, pHeight = qHeight q, pRound = qRound q,
                                          MissingVotes = vs, pSignature = 0\<rparr>),
      CommitValidateBasic = (\<lambda>m. True),
      ReqValidateBasic = (\<lambda>m. True),
      RspValidateBasic = (\<lambda>m. True),
      FetchInterval = 1\<rparr>"

text \<open>
  The host of that validator (public key 1, always the proposer, proposing the value 1):
  the application's last height is the number of commits delivered to it.
\<close>

definition soloEnv :: Env where
  "soloEnv =
     \<lparr>GetSelfPubKey = 1,
      IsValidator = (\<lambda>k. k = 1),
      GetCurrentProposer = (\<lambda>r. 1),
      DecidesProposal = 1,
      ValidateProposal = (\<lambda>d. True),
      GetAppState = (\<lambda>log. Some \<lparr>LastHeight = of_nat (length log),
                                   LastProposedData =
                                     (if log = [] then 0 else cProposedData (last log))\<rparr>),
      GetCommitHistory = (\<lambda>h. None),
      VerifySignature = (\<lambda>v. True),
      Sign = (\<lambda>m. 7),
      Now = 5\<rparr>"

text \<open>The same host when the committee does not list the node as a validator.\<close>

definition observerEnv :: Env where
  "observerEnv = soloEnv\<lparr>IsValidator := (\<lambda>k. False)\<rparr>"

definition cfg0 :: Config where
  "cfg0 =
     \<lparr>SkipTimeoutCommit = False, cfgPropose = (\<lambda>r. 3), cfgPrevote = (\<lambda>r. 1),
      cfgPrecommit = (\<lambda>r. 1), cfgCommit = (\<lambda>t. t + 1)\<rparr>"

text \<open>
  The core as \<^verbatim>\<open>NewCore\<close> and \<^verbatim>\<open>Start\<close> leave it before the first \<^verbatim>\<open>updateToAppState\<close>:
  every field of the round state has Go's zero value.
\<close>

definition core0 :: "(Vote list, Vote list) Core" where
  "core0 =
     \<lparr>Height = 0, Round = 0, Step = RoundStepNewHeight, StartTime = 0, CommitTime = 0,
      Proposal = None, LockedRound = 0, LockedProposal = None, Votes = None, LastCommit = None,
      CommitRound = 0, lastCommittedData = 0,
      cfg = cfg0, hasRecvCommitRecords = False, inFetch = False, byzantinePrevote = None,
      msgQueue = [], timeoutTicker = [], broadcast = [], sent = [], committed = []\<rparr>"

text \<open>The core at height 1 in step \<^verbatim>\<open>NewHeight\<close>, as \<^verbatim>\<open>updateToAppState\<close> leaves \<open>core0\<close>.\<close>

definition core1 :: "(Vote list, Vote list) Core" where
  "core1 =
     \<lparr>Height = 1, Round = 0, Step = RoundStepNewHeight, StartTime = 6, CommitTime = 0,
      Proposal = None, LockedRound = -1, LockedProposal = None, Votes = Some [],
      LastCommit = None, CommitRound = -1, lastCommittedData = 0,
      cfg = cfg0, hasRecvCommitRecords = False, inFetch = False, byzantinePrevote = None,
      msgQueue = [], timeoutTicker = [], broadcast = [], sent = [], committed = []\<rparr>"

text \<open>A vote of that validator at height 1, signed.\<close>

definition soloVote :: "VoteType \<Rightarrow> goint \<Rightarrow> ProposedData \<Rightarrow> Vote" where
  "soloVote t r d =
     \<lparr>vType = t, vHeight = 1, vRound = r, Proposed = d, Prev = 0, Address = 1, Signature = 7\<rparr>"

text \<open>
  The core at height 1 waiting for precommits of round \<open>r\<close>, with the vote \<open>v\<close> in its vote
  set.
\<close>

definition coreWith :: "goint \<Rightarrow> Vote \<Rightarrow> (Vote list, Vote list) Core" where
  "coreWith r v = core1\<lparr>Round := r, Step := RoundStepPrecommitFetch, Votes := Some [v]\<rparr>"

text \<open>
  The same vote sets when \<^verbatim>\<open>MakeCommit\<close> builds the commit of whatever value has the +2/3
  majority, \<^verbatim>\<open>NilData\<close> included: \<^verbatim>\<open>MakeCommit\<close> is code outside bftcore.go, and bftcore.go
  itself asks no more of it.
\<close>

definition laxOps :: "(Vote list, Vote list) VoteOps" where
  "laxOps =
     soloOps\<lparr>MakeCommit :=
       (\<lambda>vs. case vs of
              [] \<Rightarrow> Inl PanicSanity
            | v # vs' \<Rightarrow> Inr \<lparr>cHeight = vHeight v, cRound = vRound v,
                              cProposedData = Proposed v, cPrecommits = vs,
                              cCommitTime = 0, cSignature = 0\<rparr>)\<rparr>"

subsection \<open>The ladders in the spec's words\<close>

text \<open>
  The value \<^verbatim>\<open>doPrevote\<close> prevotes, as the spec states it: the byzantine override when it
  is set; else the locked value when locked; else the proposal's value when there is a
  proposal that the committee validates; else \<^verbatim>\<open>NilData\<close>.
\<close>

definition statedPrevoteValue :: "Env \<Rightarrow> ('hvs, 'vs) Core \<Rightarrow> ProposedData" where
  "statedPrevoteValue env c =
     (if byzantinePrevote c \<noteq> None then the (byzantinePrevote c)
      else if 0 \<le>s LockedRound c \<and> LockedProposal c \<noteq> None
           then Proposed (the (LockedProposal c))
      else if Proposal c \<noteq> None \<and> ValidateProposal env (Proposed (the (Proposal c)))
           then Proposed (the (Proposal c))
      else NilData)"

text \<open>The same ladder, with an override that is set to \<^verbatim>\<open>NilData\<close> counting as not set.\<close>

definition prevoteLadder :: "Env \<Rightarrow> ('hvs, 'vs) Core \<Rightarrow> ProposedData" where
  "prevoteLadder env c =
     (if byzantinePrevote c \<noteq> None \<and> byzantinePrevote c \<noteq> Some NilData
           then the (byzantinePrevote c)
      else if 0 \<le>s LockedRound c \<and> LockedProposal c \<noteq> None
           then Proposed (the (LockedProposal c))
      else if Proposal c \<noteq> None \<and> ValidateProposal env (Proposed (the (Proposal c)))
           then Proposed (the (Proposal c))
      else NilData)"


text \<open>
  What \<^verbatim>\<open>signAddVote\<close> does with a vote on a validator: the signed vote is appended to the
  internal queue and to the broadcasts.
\<close>

definition emit :: "Env \<Rightarrow> ('hvs, 'vs) Core \<Rightarrow> Vote \<Rightarrow> ('hvs, 'vs) Core" where
  "emit env c v =
     c\<lparr>msgQueue := msgQueue c @ [\<lparr>Msg = MsgVote (signVote env v), Peer = None\<rparr>],
       broadcast := broadcast c @ [MsgVote (signVote env v)]\<rparr>"

subsection \<open>What holds after a call\<close>

text \<open>
  \<open>ensures r Qc Q\<close>: the outcome \<open>r\<close> of a call is a crash whose state satisfies \<open>Qc\<close>, or a
  return whose value satisfies \<open>Q\<close>.
\<close>

definition ensures :: "('e \<times> 'c) + 'a \<Rightarrow> ('c \<Rightarrow> bool) \<Rightarrow> ('a \<Rightarrow> bool) \<Rightarrow> bool" where
  "ensures r Qc Q = (case r of Inl pc \<Rightarrow> Qc (snd pc) | Inr x \<Rightarrow> Q x)"

text \<open>The votes among the broadcasts.\<close>

definition isVoteMsg :: "ConsensusMessage \<Rightarrow> bool" where
  "isVoteMsg m = (case m of MsgVote v \<Rightarrow> True | _ \<Rightarrow> False)"

definition voteBroadcasts :: "('hvs, 'vs) Core \<Rightarrow> ConsensusMessage list" where
  "voteBroadcasts c = filter isVoteMsg (broadcast c)"

text \<open>
  \<open>quiet q b c\<close>: the internal queue of \<open>c\<close> is \<open>q\<close> and the votes it has broadcast are \<open>b\<close>.
\<close>

definition quiet :: "msgInfo list \<Rightarrow> ConsensusMessage list \<Rightarrow> ('hvs, 'vs) Core \<Rightarrow> bool" where
  "quiet q b c = (msgQueue c = q \<and> voteBroadcasts c = b)"

text \<open>The host's answers that an event was handled with.\<close>

fun eventEnv :: "event \<Rightarrow> Env" where
  "eventEnv (EvMsg env mi) = env"
| "eventEnv (EvTimeout env ti) = env"

subsection \<open>The lock\<close>

text \<open>
  The state of the lock that C2 describes: the round is not negative; the core is either
  unlocked, with \<^verbatim>\<open>LockedProposal = nil\<close> and \<^verbatim>\<open>LockedRound = -1\<close>, or locked, with a locked
  proposal, \<^verbatim>\<open>LockedRound >= 0\<close>, and the prevotes of round \<^verbatim>\<open>LockedRound\<close> in the vote set of
  the current height having a +2/3 majority for the locked proposal's value.
\<close>

definition lockInv :: "('hvs, 'vs) VoteOps \<Rightarrow> ('hvs, 'vs) Core \<Rightarrow> bool" where
  "lockInv ops c =
     (0 \<le>s Round c \<and>
      (LockedProposal c = None \<longrightarrow> LockedRound c = -1) \<and>
      (LockedProposal c \<noteq> None \<longrightarrow>
         0 \<le>s LockedRound c \<and> Votes c \<noteq> None \<and>
         TwoThirdsMajority ops (Prevotes ops (the (Votes c)) (LockedRound c))
           = (Proposed (the (LockedProposal c)), True)))"

text \<open>
  What the lock relies on in the vote sets (the spec: tallies only grow, and the value with
  a +2/3 majority is unique): a +2/3 prevote majority of a round stays what it is when a
  vote is added to the height's vote set and when a further round is tracked.
\<close>

definition polkaStable :: "('hvs, 'vs) VoteOps \<Rightarrow> bool" where
  "polkaStable ops =
     (\<forall>hvs r d. TwoThirdsMajority ops (Prevotes ops hvs r) = (d, True) \<longrightarrow>
        (\<forall>r'. TwoThirdsMajority ops (Prevotes ops (SetRound ops hvs r') r) = (d, True)) \<and>
        (\<forall>v. TwoThirdsMajority ops (Prevotes ops (snd (snd (hvsAddVote ops hvs v))) r)
               = (d, True)))"

text \<open>
  The first two events of the spec's happy path on that validator: the timeout that starts
  round 0 of height 1 (the validator proposes the value 1 and prevotes it), then its own
  prevote, taken from the internal queue.
\<close>

definition soloRun :: "event list" where
  "soloRun =
     [EvTimeout soloEnv \<lparr>tiDuration = 0, tiHeight = 1, tiRound = 0, tiStep = RoundStepNewHeight\<rparr>,
      EvMsg soloEnv \<lparr>Msg = MsgVote (soloVote PrevoteType 0 1), Peer = None\<rparr>]"

section \<open>Properties\<close>

subsection \<open>Reading the model\<close>

lemma andThen_Inr [simp]: "andThen (Inr x) f = f x"
  by (simp add: andThen_def)

lemma andThen_Inl [simp]: "andThen (Inl e) f = Inl e"
  by (simp add: andThen_def)

lemma andThen_eq_Inr: "andThen m f = Inr y \<longleftrightarrow> (\<exists>x. m = Inr x \<and> f x = Inr y)"
  by (cases m) simp_all

lemmas s_simps = word_sle_eq word_sless_alt

subsection \<open>tryAddVote\<close>

text \<open>
  C7. Whatever \<^verbatim>\<open>addVote\<close> returns, \<^verbatim>\<open>tryAddVote\<close> returns the same added flag and the same
  state; it returns the error unchanged when the error is nil, the height mismatch or a
  conflicting-votes error, and \<^verbatim>\<open>ErrAddingVote\<close> in place of every other error.
\<close>

theorem tryAddVote_filters_errors:
  assumes "addVote ops env c v = Inr (added, err, c')"
  shows "\<exists>err'. tryAddVote ops env c v = Inr (added, err', c') \<and>
           (err = None \<or> err = Some ErrVoteHeightMismatch \<or>
              (\<exists>a b. err = Some (ErrVoteConflictingVotes a b)) \<longrightarrow> err' = err) \<and>
           (err \<noteq> None \<and> err \<noteq> Some ErrVoteHeightMismatch \<and>
              (\<forall>a b. err \<noteq> Some (ErrVoteConflictingVotes a b)) \<longrightarrow> err' = Some ErrAddingVote)"
proof (cases err)
  case None
  with assms show ?thesis by (simp add: tryAddVote_def)
next
  case (Some e)
  with assms show ?thesis
    by (cases e) (simp_all add: tryAddVote_def isConflictingVotes_def)
qed

theorem tryAddVote_filters_errors_witness:
  "addVote soloOps soloEnv core1 ((soloVote PrevoteType 0 1)\<lparr>vHeight := 5\<rparr>)
     = Inr (False, Some ErrVoteHeightMismatch, core1) \<and>
   tryAddVote soloOps soloEnv core1 ((soloVote PrevoteType 0 1)\<lparr>vHeight := 5\<rparr>)
     = Inr (False, Some ErrVoteHeightMismatch, core1) \<and>
   addVote soloOps soloEnv core1 ((soloVote ProposalType 0 1)\<lparr>Address := 2\<rparr>)
     = Inr (False, Some ErrInvalidProposer, core1) \<and>
   tryAddVote soloOps soloEnv core1 ((soloVote ProposalType 0 1)\<lparr>Address := 2\<rparr>)
     = Inr (False, Some ErrAddingVote, core1)"
proof -
  have a: "addVote soloOps soloEnv core1 ((soloVote PrevoteType 0 1)\<lparr>vHeight := 5\<rparr>)
             = Inr (False, Some ErrVoteHeightMismatch, core1)"
    by (simp add: addVote_def core1_def soloVote_def)
  have b: "addVote soloOps soloEnv core1 ((soloVote ProposalType 0 1)\<lparr>Address := 2\<rparr>)
             = Inr (False, Some ErrInvalidProposer, core1)"
    by (simp add: addVote_def defaultSetProposal_def core1_def soloVote_def soloEnv_def)
  from tryAddVote_filters_errors [OF a] tryAddVote_filters_errors [OF b] a b
  show ?thesis by auto
qed

lemmas model_defs =
  scheduleTimeout_def scheduleRound0_def updateRoundStep_def isReadyToPrevote_def isValidator_def
  signVote_def signCommit_def signReq_def signRsp_def sendInternalMessage_def signAddVote_def
  updateToAppState_def enterPrevoteFetch_def enterPrecommitFetch_def doPrevote_def enterPrevote_def
  enterPrevoteWait_def doPropose_def enterPropose_def enterNewRound_def fetchMissingVotes_def
  precommitDone_def enterPrecommit_def enterPrecommitWait_def doCommit_def enterCommit_def
  defaultSetProposal_def addVoteLastCommit_def prevotePolka_def addVotePrevote_def
  addVotePrecommit_def addVote_def
  isConflictingVotes_def tryAddVote_def handleFetch_def handleFetchRsp_def handleMsg_def
  handleTimeout_def NewVote_def NilData_def Let_def

lemmas solo_defs = soloOps_def soloEnv_def cfg0_def core1_def soloVote_def

subsection \<open>Where a transition leaves the core\<close>

lemma signAddVote_frame [simp]:
  "Height (fst (signAddVote env c v)) = Height c"
  "Round (fst (signAddVote env c v)) = Round c"
  "Step (fst (signAddVote env c v)) = Step c"
  by (simp_all add: signAddVote_def sendInternalMessage_def Let_def)

lemma doPrevote_Height [simp]: "Height (doPrevote env c h r) = Height c"
  by (simp add: doPrevote_def Let_def)

lemma doPropose_Height [simp]: "Height (doPropose env c h r) = Height c"
  by (simp add: doPropose_def Let_def)

lemma precommitDone_frame [simp]:
  "Height (precommitDone ops c r) = Height c"
  "Round (precommitDone ops c r) = r"
  "Step (precommitDone ops c r) = RoundStepPrecommitFetch"
  by (simp_all add: precommitDone_def enterPrecommitFetch_def updateRoundStep_def
        scheduleTimeout_def Let_def)

lemma enterPrevote_post:
  assumes "enterPrevote ops env c h r = Inr c'"
    and "Height c = h" and "\<not> r <s Round c"
    and "Round c = r \<longrightarrow> stepNum (Step c) < stepNum RoundStepPrevote"
  shows "Height c' = h \<and> Round c' = r \<and> Step c' = RoundStepPrevoteFetch"
  using assms
  by (auto simp add: enterPrevote_def enterPrevoteFetch_def updateRoundStep_def
        scheduleTimeout_def Let_def)

lemma enterPropose_post:
  assumes "enterPropose ops env c h r = Inr c'"
    and "Height c = h" and "\<not> r <s Round c"
    and "Round c = r \<longrightarrow> stepNum (Step c) < stepNum RoundStepPropose"
  shows "Height c' = h \<and> Round c' = r \<and>
         (Step c' = RoundStepPropose \<or> Step c' = RoundStepPrevoteFetch)"
proof -
  define c1 where "c1 = scheduleTimeout c (cfgPropose (cfg c) r) h r RoundStepPropose"
  define c3 where "c3 = updateRoundStep
     (if \<not> IsValidator env (GetSelfPubKey env) then c1
      else if GetCurrentProposer env (Round c1) = GetSelfPubKey env
           then doPropose env c1 h r else c1) r RoundStepPropose"
  have c3: "Height c3 = h" "Round c3 = r" "Step c3 = RoundStepPropose"
    using assms(2) by (simp_all add: c3_def c1_def updateRoundStep_def scheduleTimeout_def)
  have e: "(if isReadyToPrevote c3 then enterPrevote ops env c3 h (Round c3) else Inr c3) = Inr c'"
    using assms unfolding enterPropose_def c3_def c1_def Let_def by (auto split: if_splits)
  show ?thesis
  proof (cases "isReadyToPrevote c3")
    case True
    with e have "enterPrevote ops env c3 h r = Inr c'" by (simp add: c3)
    from enterPrevote_post [OF this] c3 show ?thesis by (simp add: s_simps)
  next
    case False
    with e c3 show ?thesis by auto
  qed
qed

lemma enterNewRound_post:
  assumes "enterNewRound ops env c h r = Inr c'"
    and "Height c = h" and "\<not> r <s Round c"
    and "Round c = r \<longrightarrow> Step c = RoundStepNewHeight"
  shows "Height c' = h \<and> Round c' = r \<and>
         (Step c' = RoundStepPropose \<or> Step c' = RoundStepPrevoteFetch)"
proof -
  from assms obtain c2 where e: "enterPropose ops env c2 h r = Inr c'"
    and c2: "Height c2 = h" "Round c2 = r" "Step c2 = RoundStepNewRound"
    unfolding enterNewRound_def Let_def
    by (auto simp add: updateRoundStep_def split: if_splits option.splits)
  from enterPropose_post [OF e] c2 show ?thesis by (simp add: s_simps)
qed

lemma enterPrevoteWait_post:
  assumes "enterPrevoteWait ops env c h r = Inr c'"
    and "Height c = h" and "\<not> r <s Round c"
    and "Round c = r \<longrightarrow> stepNum (Step c) < stepNum RoundStepPrevoteWait"
  shows "Height c' = h \<and> Round c' = r \<and> Step c' = RoundStepPrevoteWait"
  using assms
  by (auto simp add: enterPrevoteWait_def updateRoundStep_def scheduleTimeout_def Let_def
        split: option.splits if_splits)

lemma enterPrecommitWait_post:
  assumes "enterPrecommitWait ops env c h r = Inr c'"
    and "Height c = h" and "\<not> r <s Round c"
    and "Round c = r \<longrightarrow> stepNum (Step c) < stepNum RoundStepPrecommitWait"
  shows "Height c' = h \<and> Round c' = r \<and> Step c' = RoundStepPrecommitWait"
  using assms
  by (auto simp add: enterPrecommitWait_def updateRoundStep_def scheduleTimeout_def Let_def
        split: option.splits if_splits)

lemma enterPrecommit_post:
  assumes "enterPrecommit ops env c h r = Inr c'"
    and "Height c = h" and "\<not> r <s Round c"
    and "Round c = r \<longrightarrow> stepNum (Step c) < stepNum RoundStepPrecommit"
  shows "Height c' = h \<and> Round c' = r \<and> Step c' = RoundStepPrecommitFetch"
  using assms unfolding enterPrecommit_def Let_def
  by (auto split: option.splits if_splits)

text \<open>
  The successor of a height that is at least a positive height \<open>h\<close> is not \<open>h\<close>, also
  when the addition wraps.
\<close>

lemma word_succ_above:
  fixes L h :: "64 word"
  assumes "\<not> L <s h" and "0 <s h"
  shows "L + 1 \<noteq> h"
proof
  assume e: "L + 1 = h"
  have le: "sint h \<le> sint L" and pos: "0 < sint h"
    using assms by (simp_all add: s_simps)
  have s: "sint (L + 1) = signed_take_bit 63 (sint L + 1)"
    by (simp add: sint_word_ariths)
  have up: "sint L < 2 ^ 63" using sint_lt [of L] by simp
  have lo: "- (2 ^ 63) \<le> sint L" using sint_ge [of L] by simp
  show False
  proof (cases "sint L + 1 < 2 ^ 63")
    case True
    then have "signed_take_bit 63 (sint L + 1) = sint L + 1"
      using lo by (simp add: signed_take_bit_int_eq_self)
    with s e le show False by simp
  next
    case False
    with up have "sint L + 1 = 2 ^ 63" by simp
    then have "signed_take_bit (63::nat) (sint L + 1) = signed_take_bit 63 (2 ^ 63 :: int)"
      by simp
    also have "\<dots> = - (2 ^ 63)"
      by (simp add: signed_take_bit_eq_take_bit_minus)
    finally have "sint h = - (2 ^ 63)" using s e by simp
    with pos show False by simp
  qed
qed

lemma enterCommit_post:
  assumes "enterCommit ops env c h r = Inr c'"
    and "Height c = h" and "stepNum (Step c) < stepNum RoundStepCommit"
    and "0 <s h" and "0 \<le>s r"
  shows "Height c' \<noteq> h \<or> Step c' = RoundStepCommit"
proof -
  define c2 where
    "c2 = updateRoundStep (c\<lparr>CommitRound := r, CommitTime := Now env\<rparr>) (Round c) RoundStepCommit"
  have c2: "Height c2 = h" "Step c2 = RoundStepCommit" "CommitRound c2 = r"
    using assms(2) by (simp_all add: c2_def updateRoundStep_def)
  from assms obtain d where "doCommit ops env c2 d = Inr c'"
    unfolding enterCommit_def Let_def c2_def by (auto split: option.splits if_splits)
  then obtain c2' a c3 where u: "updateToAppState ops env c2' a = Inr c3"
      and c2': "Height c2' = h" "Step c2' = RoundStepCommit" "CommitRound c2' = r"
      and c': "c' = scheduleRound0 env (c3\<lparr>hasRecvCommitRecords := False\<rparr>)
                      (c3\<lparr>hasRecvCommitRecords := False\<rparr>)"
    unfolding doCommit_def Let_def using c2
    by (auto simp add: andThen_eq_Inr split: option.splits if_splits sum.splits)
  show ?thesis
  proof (cases a)
    case None
    with u c2' c' show ?thesis
      by (simp add: updateToAppState_def scheduleRound0_def scheduleTimeout_def)
  next
    case (Some st)
    have m1: "-1 <s r" using assms(5) by (simp add: s_simps)
    from u Some c2' m1 assms(4)
    have nl: "\<not> LastHeight st <s h" and hc: "Height c3 = LastHeight st + 1"
      by (auto simp add: updateToAppState_def andThen_eq_Inr updateRoundStep_def Let_def
            split: if_splits)
    from word_succ_above [OF nl assms(4)] hc c' show ?thesis
      by (simp add: scheduleRound0_def scheduleTimeout_def)
  qed
qed

lemma enter_noop:
  assumes "h \<noteq> Height c \<or> (t \<noteq> ToCommit \<and> r <s Round c) \<or>
           ((t = ToCommit \<or> r = Round c) \<and> \<not> stepNum (Step c) < stepNum (targetStep t))"
  shows "enter t ops env c h r = Inr c"
  using assms
  by (cases t; cases "Step c")
     (auto simp add: enterNewRound_def enterPropose_def enterPrevote_def enterPrevoteWait_def
        enterPrecommit_def enterPrecommitWait_def enterCommit_def)

lemma enter_post:
  assumes r: "enter t ops env c h r = Inr c1"
    and g: "Height c = h" "t \<noteq> ToCommit \<longrightarrow> \<not> r <s Round c"
       "(t = ToCommit \<or> r = Round c) \<longrightarrow> stepNum (Step c) < stepNum (targetStep t)"
    and w: "t = ToCommit \<longrightarrow> 0 <s h \<and> 0 \<le>s r"
  shows "h \<noteq> Height c1 \<or>
         ((t = ToCommit \<or> r = Round c1) \<and> \<not> stepNum (Step c1) < stepNum (targetStep t))"
proof (cases t)
  case ToNewRound
  with g have "Round c = r \<longrightarrow> Step c = RoundStepNewHeight" by (cases "Step c") auto
  with enterNewRound_post [of ops env c h r c1] r g ToNewRound show ?thesis by auto
next
  case ToPropose
  with enterPropose_post [of ops env c h r c1] r g show ?thesis by auto
next
  case ToPrevote
  with enterPrevote_post [of ops env c h r c1] r g show ?thesis by auto
next
  case ToPrevoteWait
  with enterPrevoteWait_post [of ops env c h r c1] r g show ?thesis by auto
next
  case ToPrecommit
  with enterPrecommit_post [of ops env c h r c1] r g show ?thesis by auto
next
  case ToPrecommitWait
  with enterPrecommitWait_post [of ops env c h r c1] r g show ?thesis by auto
next
  case ToCommit
  with enterCommit_post [of ops env c h r c1] r g w show ?thesis by auto
qed

subsection \<open>The entry guards\<close>

text \<open>
  C3, as the spec states it, fails: at height 1, round 0, step \<^verbatim>\<open>PrevoteFetch\<close>, the call
  \<^verbatim>\<open>enterNewRound(1, 1)\<close> does not satisfy the spec's precondition (the step is not strictly
  before \<^verbatim>\<open>NewRound\<close>), yet it is not a no-op: it moves the core to round 1. Nor is
  \<^verbatim>\<open>enterCommit(1, 0)\<close> called in round 1 a no-op: the round argument is behind the current
  round, and the commit runs (the core is at height 2 afterwards).
\<close>

theorem enter_guard_counterexample:
  "\<not> specGuard ToNewRound (core1\<lparr>Step := RoundStepPrevoteFetch\<rparr>) 1 1 \<and>
   enter ToNewRound soloOps soloEnv (core1\<lparr>Step := RoundStepPrevoteFetch\<rparr>) 1 1
     \<noteq> Inr (core1\<lparr>Step := RoundStepPrevoteFetch\<rparr>) \<and>
   map_sum fst Round
     (enter ToNewRound soloOps soloEnv (core1\<lparr>Step := RoundStepPrevoteFetch\<rparr>) 1 1) = Inr 1 \<and>
   \<not> specGuard ToCommit (coreWith 1 (soloVote PrecommitType 0 1)) 1 0 \<and>
   map_sum fst Height
     (enter ToCommit soloOps soloEnv (coreWith 1 (soloVote PrecommitType 0 1)) 1 0) = Inr 2"
  by (simp add: specGuard_def model_defs solo_defs coreWith_def s_simps)

text \<open>
  C3, amended. A transition \<^verbatim>\<open>enterX(h, r)\<close> is a no-op (it returns the core as it was:
  round state, queue, tickets and logs) when \<open>h\<close> is not the current height; or, for every
  transition but \<^verbatim>\<open>enterCommit\<close>, when \<open>r\<close> is less than the current round; or when \<open>r\<close> is the
  current round (for \<^verbatim>\<open>enterCommit\<close>: whatever \<open>r\<close> is) and the current step is not strictly
  before the target step. For a round beyond the current one the step is not looked at.
\<close>

theorem enter_noop_outside_guard:
  assumes "h \<noteq> Height c \<or> (t \<noteq> ToCommit \<and> r <s Round c) \<or>
           ((t = ToCommit \<or> r = Round c) \<and> \<not> stepNum (Step c) < stepNum (targetStep t))"
  shows "enter t ops env c h r = Inr c"
  using assms by (rule enter_noop)

theorem enter_noop_outside_guard_witness:
  "(0::64 word) = Round (core1\<lparr>Step := RoundStepPrevoteFetch\<rparr>) \<and>
   stepNum (targetStep ToPrevote) \<le> stepNum (Step (core1\<lparr>Step := RoundStepPrevoteFetch\<rparr>)) \<and>
   enter ToPrevote soloOps soloEnv (core1\<lparr>Step := RoundStepPrevoteFetch\<rparr>) 1 0
     = Inr (core1\<lparr>Step := RoundStepPrevoteFetch\<rparr>)"
proof -
  have g: "(0::64 word) = Round (core1\<lparr>Step := RoundStepPrevoteFetch\<rparr>)"
    "stepNum (targetStep ToPrevote) \<le> stepNum (Step (core1\<lparr>Step := RoundStepPrevoteFetch\<rparr>))"
    by (simp_all add: core1_def)
  then have "(1::64 word) \<noteq> Height (core1\<lparr>Step := RoundStepPrevoteFetch\<rparr>) \<or>
    (ToPrevote \<noteq> ToCommit \<and> (0::64 word) <s Round (core1\<lparr>Step := RoundStepPrevoteFetch\<rparr>)) \<or>
    ((ToPrevote = ToCommit \<or> (0::64 word) = Round (core1\<lparr>Step := RoundStepPrevoteFetch\<rparr>)) \<and>
     \<not> stepNum (Step (core1\<lparr>Step := RoundStepPrevoteFetch\<rparr>)) < stepNum (targetStep ToPrevote))"
    by simp
  from enter_noop_outside_guard [OF this] g show ?thesis by blast
qed

subsection \<open>Idempotence\<close>

text \<open>
  C8. Calling a transition twice in a row with the same arguments is calling it once: the
  second call returns the core as the first left it (and is not reached when the first
  panics). For \<^verbatim>\<open>enterCommit\<close> the height is positive and the commit round is not negative,
  as heights and rounds of a running core are: \<^verbatim>\<open>updateToAppState\<close> checks that the
  application's height has advanced only for such a commit.
\<close>

theorem enter_twice:
  assumes "t = ToCommit \<longrightarrow> 0 <s h \<and> 0 \<le>s r"
  shows "andThen (enter t ops env c h r) (\<lambda>c1. enter t ops env c1 h r) = enter t ops env c h r"
proof (cases "enter t ops env c h r")
  case (Inl e)
  then show ?thesis by simp
next
  case (Inr c1)
  have "enter t ops env c1 h r = Inr c1"
  proof (cases "h \<noteq> Height c \<or> (t \<noteq> ToCommit \<and> r <s Round c) \<or>
     ((t = ToCommit \<or> r = Round c) \<and> \<not> stepNum (Step c) < stepNum (targetStep t))")
    case True
    from enter_noop [OF True] Inr have "c1 = c" by simp
    with enter_noop [OF True] show ?thesis by simp
  next
    case False
    then have g: "Height c = h" "t \<noteq> ToCommit \<longrightarrow> \<not> r <s Round c"
       "(t = ToCommit \<or> r = Round c) \<longrightarrow> stepNum (Step c) < stepNum (targetStep t)"
      by auto
    from enter_post [OF Inr g assms] show ?thesis
      by (intro enter_noop) blast
  qed
  with Inr show ?thesis by simp
qed

theorem enter_twice_witness:
  "(0::64 word) <s 1 \<and> (0::64 word) \<le>s 0 \<and>
   andThen (enter ToCommit soloOps soloEnv (coreWith 0 (soloVote PrecommitType 0 1)) 1 0)
     (\<lambda>c1. enter ToCommit soloOps soloEnv c1 1 0)
     = enter ToCommit soloOps soloEnv (coreWith 0 (soloVote PrecommitType 0 1)) 1 0 \<and>
   map_sum fst Height
     (enter ToCommit soloOps soloEnv (coreWith 0 (soloVote PrecommitType 0 1)) 1 0) = Inr 2"
proof -
  have g: "(0::64 word) <s 1 \<and> (0::64 word) \<le>s 0"
    by (simp add: s_simps)
  then have g': "ToCommit = ToCommit \<longrightarrow> (0::64 word) <s 1 \<and> (0::64 word) \<le>s 0"
    by simp
  have v: "map_sum fst Height
     (enter ToCommit soloOps soloEnv (coreWith 0 (soloVote PrecommitType 0 1)) 1 0) = Inr 2"
    by (simp add: model_defs solo_defs coreWith_def s_simps)
  from enter_twice [OF g'] g v show ?thesis by blast
qed

subsection \<open>Timeouts\<close>

text \<open>
  C9. A ticket for step \<^verbatim>\<open>NewRound\<close> that passes the staleness filter makes \<^verbatim>\<open>handleTimeout\<close>
  call \<^verbatim>\<open>enterPropose(ti.Height, 0)\<close>: the round argument is 0, not \<^verbatim>\<open>ti.Round\<close>. So the
  core is left as it was, or panics, or is in round 0 afterwards: a ticket armed for a
  round \<open>r > 0\<close> does not take the core into round \<open>r\<close>.
\<close>

theorem newRound_timeout_proposes_round0:
  assumes "tiStep ti = RoundStepNewRound" and "passesFilter ti rs"
  shows "handleTimeout ops env c ti rs = enterPropose ops env c (tiHeight ti) 0 \<and>
         (\<forall>c'. handleTimeout ops env c ti rs = Inr c' \<longrightarrow> c' = c \<or> Round c' = 0)"
proof -
  have e: "handleTimeout ops env c ti rs = enterPropose ops env c (tiHeight ti) 0"
    using assms by (auto simp add: handleTimeout_def passesFilter_def s_simps)
  have "c' = c \<or> Round c' = 0" if r: "enterPropose ops env c (tiHeight ti) 0 = Inr c'" for c'
  proof (cases "tiHeight ti \<noteq> Height c \<or> 0 <s Round c \<or>
                (0 = Round c \<and> \<not> stepNum (Step c) < stepNum RoundStepPropose)")
    case True
    then have "enter ToPropose ops env c (tiHeight ti) 0 = Inr c"
      by (intro enter_noop) auto
    with r show ?thesis by simp
  next
    case False
    with enterPropose_post [OF r] show ?thesis by auto
  qed
  with e show ?thesis by simp
qed

theorem newRound_timeout_proposes_round0_witness:
  "tiStep \<lparr>tiDuration = 0, tiHeight = 1, tiRound = 2, tiStep = RoundStepNewRound\<rparr>
     = RoundStepNewRound \<and>
   passesFilter \<lparr>tiDuration = 0, tiHeight = 1, tiRound = 2, tiStep = RoundStepNewRound\<rparr> core1 \<and>
   handleTimeout soloOps soloEnv core1
     \<lparr>tiDuration = 0, tiHeight = 1, tiRound = 2, tiStep = RoundStepNewRound\<rparr> core1
     = enterPropose soloOps soloEnv core1 1 0 \<and>
   map_sum fst (\<lambda>c. (Round c, Step c))
     (handleTimeout soloOps soloEnv core1
        \<lparr>tiDuration = 0, tiHeight = 1, tiRound = 2, tiStep = RoundStepNewRound\<rparr> core1)
     = Inr (0, RoundStepPrevoteFetch)"
proof -
  let ?ti = "\<lparr>tiDuration = 0, tiHeight = 1, tiRound = 2, tiStep = RoundStepNewRound\<rparr>"
  have a: "tiStep ?ti = RoundStepNewRound" by simp
  have b: "passesFilter ?ti core1" by (simp add: passesFilter_def core1_def s_simps)
  have v: "map_sum fst (\<lambda>c. (Round c, Step c)) (enterPropose soloOps soloEnv core1 1 0)
             = Inr (0, RoundStepPrevoteFetch)"
    by (simp add: model_defs solo_defs s_simps)
  from newRound_timeout_proposes_round0 [OF a b, of soloOps soloEnv core1] a b v
  show ?thesis by simp
qed

subsection \<open>doPrevote\<close>

lemma signAddVote_validator:
  "isValidator env \<Longrightarrow> signAddVote env c v = (emit env c v, signVote env v)"
  by (simp add: signAddVote_def emit_def sendInternalMessage_def Let_def)

lemma signAddVote_observer: "\<not> isValidator env \<Longrightarrow> signAddVote env c v = (c, v)"
  by (simp add: signAddVote_def)

text \<open>
  C6, as the spec states it, fails in two ways. An override that is set to \<^verbatim>\<open>NilData\<close> is
  not prevoted: with the override \<^verbatim>\<open>NilData\<close> and a valid proposal for the value 1, the
  validator prevotes 1. And a node that is not a validator emits no prevote at all.
\<close>

theorem doPrevote_counterexample:
  "byzantinePrevote (core1\<lparr>byzantinePrevote := Some NilData,
      Proposal := Some (soloVote ProposalType 0 1)\<rparr>) = Some NilData \<and>
   statedPrevoteValue soloEnv (core1\<lparr>byzantinePrevote := Some NilData,
      Proposal := Some (soloVote ProposalType 0 1)\<rparr>) = NilData \<and>
   msgQueue (doPrevote soloEnv (core1\<lparr>byzantinePrevote := Some NilData,
      Proposal := Some (soloVote ProposalType 0 1)\<rparr>) 1 0)
     = [\<lparr>Msg = MsgVote (soloVote PrevoteType 0 1), Peer = None\<rparr>] \<and>
   Proposed (soloVote PrevoteType 0 1) = 1 \<and>
   NilData = 0 \<and>
   msgQueue (doPrevote observerEnv (core1\<lparr>Proposal := Some (soloVote ProposalType 0 1)\<rparr>) 1 0) = [] \<and>
   broadcast (doPrevote observerEnv (core1\<lparr>Proposal := Some (soloVote ProposalType 0 1)\<rparr>) 1 0) = []"
  by (simp add: statedPrevoteValue_def model_defs solo_defs observerEnv_def s_simps)

text \<open>
  C6, amended. \<^verbatim>\<open>doPrevote\<close> hands \<^verbatim>\<open>signAddVote\<close> a prevote for the current height and
  round, bound to \<^verbatim>\<open>lastCommittedData\<close>, whose value follows the ladder: the override when it
  is set and is not \<^verbatim>\<open>NilData\<close>; else the locked value when locked; else the value of a
  proposal that the committee validates; else \<^verbatim>\<open>NilData\<close>. On a validator the signed vote is
  emitted (queued and broadcast); on any other node nothing is, and the core is unchanged.
\<close>

theorem doPrevote_ladder:
  "doPrevote env c h r =
     fst (signAddVote env c
            (NewVote PrevoteType (Height c) (Round c) (prevoteLadder env c) (lastCommittedData c))) \<and>
   (isValidator env \<longrightarrow>
      doPrevote env c h r =
        emit env c
          (NewVote PrevoteType (Height c) (Round c) (prevoteLadder env c) (lastCommittedData c))) \<and>
   (\<not> isValidator env \<longrightarrow> doPrevote env c h r = c)"
proof -
  have e: "doPrevote env c h r =
     fst (signAddVote env c
            (NewVote PrevoteType (Height c) (Round c) (prevoteLadder env c) (lastCommittedData c)))"
    by (cases "byzantinePrevote c") (auto simp add: doPrevote_def prevoteLadder_def Let_def)
  then show ?thesis
    by (simp add: signAddVote_validator signAddVote_observer)
qed

theorem doPrevote_ladder_witness:
  "isValidator soloEnv \<and>
   prevoteLadder soloEnv (core1\<lparr>Proposal := Some (soloVote ProposalType 0 1)\<rparr>) = 1 \<and>
   doPrevote soloEnv (core1\<lparr>Proposal := Some (soloVote ProposalType 0 1)\<rparr>) 1 0 =
     core1\<lparr>Proposal := Some (soloVote ProposalType 0 1),
           msgQueue := [\<lparr>Msg = MsgVote (soloVote PrevoteType 0 1), Peer = None\<rparr>],
           broadcast := [MsgVote (soloVote PrevoteType 0 1)]\<rparr>"
proof -
  have v: "isValidator soloEnv" by (simp add: isValidator_def soloEnv_def)
  have l: "prevoteLadder soloEnv (core1\<lparr>Proposal := Some (soloVote ProposalType 0 1)\<rparr>) = 1"
    by (simp add: prevoteLadder_def solo_defs s_simps)
  from doPrevote_ladder [of soloEnv "core1\<lparr>Proposal := Some (soloVote ProposalType 0 1)\<rparr>" 1 0] v
  have "doPrevote soloEnv (core1\<lparr>Proposal := Some (soloVote ProposalType 0 1)\<rparr>) 1 0 =
        emit soloEnv (core1\<lparr>Proposal := Some (soloVote ProposalType 0 1)\<rparr>)
          (NewVote PrevoteType (Height (core1\<lparr>Proposal := Some (soloVote ProposalType 0 1)\<rparr>))
             (Round (core1\<lparr>Proposal := Some (soloVote ProposalType 0 1)\<rparr>))
             (prevoteLadder soloEnv (core1\<lparr>Proposal := Some (soloVote ProposalType 0 1)\<rparr>))
             (lastCommittedData (core1\<lparr>Proposal := Some (soloVote ProposalType 0 1)\<rparr>)))"
    by blast
  also have "\<dots> = core1\<lparr>Proposal := Some (soloVote ProposalType 0 1),
           msgQueue := [\<lparr>Msg = MsgVote (soloVote PrevoteType 0 1), Peer = None\<rparr>],
           broadcast := [MsgVote (soloVote PrevoteType 0 1)]\<rparr>"
    unfolding l by (simp add: emit_def signVote_def NewVote_def solo_defs)
  finally show ?thesis using v l by simp
qed

subsection \<open>Votes of the previous height\<close>

text \<open>
  C5, as the spec states it, fails. At the first height \<^verbatim>\<open>LastCommit\<close> is nil: a precommit
  of the previous height that arrives in step \<^verbatim>\<open>NewHeight\<close> is then rejected with the
  height mismatch, not added. And when \<^verbatim>\<open>LastCommit.AddVote\<close> reports the vote as not added
  (here: a duplicate), \<^verbatim>\<open>addVote\<close> returns without entering round 0, although
  \<^verbatim>\<open>SkipTimeoutCommit\<close> is set and \<^verbatim>\<open>LastCommit.HasAll()\<close> holds.
\<close>

theorem addVote_previous_height_counterexample:
  "Step core1 = RoundStepNewHeight \<and>
   vType ((soloVote PrecommitType 0 1)\<lparr>vHeight := 0\<rparr>) = PrecommitType \<and>
   vHeight ((soloVote PrecommitType 0 1)\<lparr>vHeight := 0\<rparr>) + 1 = Height core1 \<and>
   addVote soloOps soloEnv core1 ((soloVote PrecommitType 0 1)\<lparr>vHeight := 0\<rparr>)
     = Inr (False, Some ErrVoteHeightMismatch, core1) \<and>
   SkipTimeoutCommit (cfg0\<lparr>SkipTimeoutCommit := True\<rparr>) \<and>
   HasAll soloOps [soloVote PrecommitType 0 1] \<and>
   addVote soloOps soloEnv
     (core1\<lparr>Height := 2, LastCommit := Some [soloVote PrecommitType 0 1],
            cfg := cfg0\<lparr>SkipTimeoutCommit := True\<rparr>\<rparr>)
     (soloVote PrecommitType 0 1)
     = Inr (False, None,
            core1\<lparr>Height := 2, LastCommit := Some [soloVote PrecommitType 0 1],
                  cfg := cfg0\<lparr>SkipTimeoutCommit := True\<rparr>\<rparr>)"
  by (simp add: model_defs solo_defs s_simps)

text \<open>
  C5, amended. For a vote \<open>v\<close> with \<^verbatim>\<open>v.Height + 1 == Height\<close>: if the core is in step
  \<^verbatim>\<open>NewHeight\<close>, \<open>v\<close> is a precommit and \<^verbatim>\<open>LastCommit\<close> is not nil, \<^verbatim>\<open>addVote\<close> hands \<open>v\<close> to
  \<^verbatim>\<open>LastCommit.AddVote\<close> and returns its answer; if the vote was added, \<^verbatim>\<open>SkipTimeoutCommit\<close>
  is set and \<^verbatim>\<open>LastCommit.HasAll()\<close> holds, it first calls \<^verbatim>\<open>enterNewRound(Height, 0)\<close>. Every
  other vote of the previous height (also a precommit in step \<^verbatim>\<open>NewHeight\<close> when
  \<^verbatim>\<open>LastCommit\<close> is nil) is rejected with the height mismatch, and the core is unchanged.
\<close>

theorem addVote_previous_height:
  assumes "vHeight v + 1 = Height c"
  shows "(Step c = RoundStepNewHeight \<and> vType v = PrecommitType \<and> LastCommit c = Some lc \<longrightarrow>
            addVote ops env c v =
              (if fst (vsAddVote ops lc v) \<and> SkipTimeoutCommit (cfg c) \<and>
                  HasAll ops (snd (snd (vsAddVote ops lc v)))
               then andThen
                      (enterNewRound ops env (c\<lparr>LastCommit := Some (snd (snd (vsAddVote ops lc v)))\<rparr>)
                         (Height c) 0)
                      (\<lambda>c2. Inr (True, fst (snd (vsAddVote ops lc v)), c2))
               else Inr (fst (vsAddVote ops lc v), fst (snd (vsAddVote ops lc v)),
                         c\<lparr>LastCommit := Some (snd (snd (vsAddVote ops lc v)))\<rparr>))) \<and>
         (\<not> (Step c = RoundStepNewHeight \<and> vType v = PrecommitType) \<or> LastCommit c = None \<longrightarrow>
            addVote ops env c v = Inr (False, Some ErrVoteHeightMismatch, c))"
  using assms by (auto simp add: addVote_def addVoteLastCommit_def Let_def)

theorem addVote_previous_height_witness:
  "vHeight (soloVote PrecommitType 0 1) + 1 = (2::64 word) \<and>
   map_sum fst (\<lambda>r. (fst r, fst (snd r), Round (snd (snd r)), Step (snd (snd r)),
                     LastCommit (snd (snd r))))
     (addVote soloOps soloEnv
        (core1\<lparr>Height := 2, LastCommit := Some [], cfg := cfg0\<lparr>SkipTimeoutCommit := True\<rparr>\<rparr>)
        (soloVote PrecommitType 0 1))
     = Inr (True, None, 0, RoundStepPrevoteFetch, Some [soloVote PrecommitType 0 1])"
proof -
  let ?c = "core1\<lparr>Height := 2, LastCommit := Some [], cfg := cfg0\<lparr>SkipTimeoutCommit := True\<rparr>\<rparr>"
  have h: "vHeight (soloVote PrecommitType 0 1) + 1 = Height ?c"
    by (simp add: solo_defs)
  have s: "Step ?c = RoundStepNewHeight \<and> vType (soloVote PrecommitType 0 1) = PrecommitType \<and>
           LastCommit ?c = Some []"
    by (simp add: solo_defs)
  from addVote_previous_height [OF h, of "[]" soloOps soloEnv] s
  have "addVote soloOps soloEnv ?c (soloVote PrecommitType 0 1) =
          andThen (enterNewRound soloOps soloEnv
                     (?c\<lparr>LastCommit := Some [soloVote PrecommitType 0 1]\<rparr>) 2 0)
            (\<lambda>c2. Inr (True, None, c2))"
    by (simp add: solo_defs)
  then show ?thesis
    by (simp add: model_defs solo_defs s_simps)
qed

subsection \<open>enterCommit\<close>

lemma enterCommit_no_majority:
  assumes "Height c = h" and "stepNum (Step c) < stepNum RoundStepCommit"
    and "Votes c = Some hvs"
    and "\<not> snd (TwoThirdsMajority ops (Precommits ops hvs r))"
  shows "enterCommit ops env c h r = Inl (PanicSanity, c)"
  using assms by (auto simp add: enterCommit_def Let_def)

text \<open>
  C4 holds in its first half (\<open>enterCommit_no_majority\<close>: past the guard and without a +2/3
  majority, \<^verbatim>\<open>enterCommit\<close> is a sanity violation and records nothing). Its second half
  fails on the code: \<^verbatim>\<open>enterCommit\<close> tests that there is a +2/3 majority and never that its
  value is not \<^verbatim>\<open>NilData\<close>, and neither does the precommit case of \<^verbatim>\<open>addVote\<close> that calls
  it, while the paths for prevotes do test \<^verbatim>\<open>NilData\<close> (\<^verbatim>\<open>enterPrecommit\<close>, and the prevote
  case of \<^verbatim>\<open>addVote\<close>) and the comment above \<^verbatim>\<open>enterNewRound\<close> has +2/3 precommits for nil
  enter the next round. At a validator of height 1 waiting for the precommits of round 0,
  the precommit for \<^verbatim>\<open>NilData\<close> that makes the +2/3 majority is handled by calling
  \<^verbatim>\<open>enterCommit(1, 0)\<close>: it records \<^verbatim>\<open>CommitRound = 0\<close> and \<^verbatim>\<open>CommitTime\<close>, enters step
  \<^verbatim>\<open>Commit\<close> and runs \<^verbatim>\<open>doCommit(NilData)\<close>. When \<^verbatim>\<open>MakeCommit\<close> refuses a majority for
  nil, the node crashes there, the commit round and time recorded; when \<^verbatim>\<open>MakeCommit\<close>
  builds the commit, \<^verbatim>\<open>NilData\<close> is delivered to the application as the committed value
  and the core moves to height 2.
\<close>

theorem enterCommit_nil_majority:
  "TwoThirdsMajority soloOps (Precommits soloOps [soloVote PrecommitType 0 NilData] 0)
     = (NilData, True) \<and>
   enterCommit soloOps soloEnv (coreWith 0 (soloVote PrecommitType 0 NilData)) 1 0
     = doCommit soloOps soloEnv
         ((coreWith 0 (soloVote PrecommitType 0 NilData))
            \<lparr>CommitRound := 0, CommitTime := 5, Step := RoundStepCommit\<rparr>) NilData \<and>
   enterCommit soloOps soloEnv (coreWith 0 (soloVote PrecommitType 0 NilData)) 1 0
     = Inl (PanicSanity,
            (coreWith 0 (soloVote PrecommitType 0 NilData))
              \<lparr>CommitRound := 0, CommitTime := 5, Step := RoundStepCommit\<rparr>) \<and>
   handleMsg soloOps soloEnv (core1\<lparr>Step := RoundStepPrecommitFetch\<rparr>)
       \<lparr>Msg = MsgVote (soloVote PrecommitType 0 NilData), Peer = None\<rparr>
     = Inl (PanicSanity,
            (coreWith 0 (soloVote PrecommitType 0 NilData))
              \<lparr>CommitRound := 0, CommitTime := 5, Step := RoundStepCommit\<rparr>) \<and>
   map_sum fst
     (\<lambda>c. (Height c, Step c, map cProposedData (committed c), lastCommittedData c))
     (handleMsg laxOps soloEnv (core1\<lparr>Step := RoundStepPrecommitFetch\<rparr>)
        \<lparr>Msg = MsgVote (soloVote PrecommitType 0 NilData), Peer = None\<rparr>)
     = Inr (2, RoundStepNewHeight, [NilData], NilData)"
  by (simp add: model_defs solo_defs laxOps_def coreWith_def s_simps)

theorem enterCommit_nil_majority_witness:
  "map_sum (\<lambda>pc. (fst pc, CommitRound (snd pc), CommitTime (snd pc), Step (snd pc),
                   committed (snd pc)))
           Height
     (handleMsg soloOps soloEnv (core1\<lparr>Step := RoundStepPrecommitFetch\<rparr>)
        \<lparr>Msg = MsgVote (soloVote PrecommitType 0 NilData), Peer = None\<rparr>)
     = Inl (PanicSanity, 0, 5, RoundStepCommit, []) \<and>
   map_sum (\<lambda>pc. (fst pc, CommitRound (snd pc), CommitTime (snd pc), Step (snd pc),
                   committed (snd pc)))
           Height
     (enterCommit soloOps soloEnv (coreWith 0 (soloVote PrecommitType 0 NilData)) 1 0)
     = Inl (PanicSanity, 0, 5, RoundStepCommit, [])"
proof -
  from enterCommit_nil_majority
  have h: "handleMsg soloOps soloEnv (core1\<lparr>Step := RoundStepPrecommitFetch\<rparr>)
       \<lparr>Msg = MsgVote (soloVote PrecommitType 0 NilData), Peer = None\<rparr>
     = Inl (PanicSanity,
            (coreWith 0 (soloVote PrecommitType 0 NilData))
              \<lparr>CommitRound := 0, CommitTime := 5, Step := RoundStepCommit\<rparr>)"
    and e: "enterCommit soloOps soloEnv (coreWith 0 (soloVote PrecommitType 0 NilData)) 1 0
     = Inl (PanicSanity,
            (coreWith 0 (soloVote PrecommitType 0 NilData))
              \<lparr>CommitRound := 0, CommitTime := 5, Step := RoundStepCommit\<rparr>)"
    by blast+
  show ?thesis
    unfolding h e by (simp add: coreWith_def core1_def)
qed

subsection \<open>enterPrecommit\<close>



lemma precommitDone_lock [simp]:
  "LockedRound (precommitDone ops (fst (signAddVote env c v)) r) = LockedRound c"
  "LockedProposal (precommitDone ops (fst (signAddVote env c v)) r) = LockedProposal c"
  by (simp_all add: precommitDone_def enterPrecommitFetch_def updateRoundStep_def
        scheduleTimeout_def signAddVote_def sendInternalMessage_def Let_def)





subsection \<open>Outcomes\<close>

lemma ensures_Inr [simp]: "ensures (Inr x) Qc Q = Q x"
  by (simp add: ensures_def)

lemma ensures_Inl [simp]: "ensures (Inl (p, c)) Qc Q = Qc c"
  by (simp add: ensures_def)

lemma ensures_andThen:
  assumes "ensures m Qc P" and "\<And>x. P x \<Longrightarrow> ensures (f x) Qc Q"
  shows "ensures (andThen m f) Qc Q"
  using assms by (cases m) (auto simp add: ensures_def)

lemma ensures_weaken:
  assumes "ensures m Qc P" and "\<And>x. P x \<Longrightarrow> Q x"
  shows "ensures m Qc Q"
  using assms by (cases m) (auto simp add: ensures_def)

lemma ensures_returns: "ensures m Qc Q \<Longrightarrow> m = Inr x \<Longrightarrow> Q x"
  by simp

subsection \<open>A node that is not a validator\<close>

lemma quiet_frame [simp]:
  "quiet q b (scheduleTimeout c d h r s) = quiet q b c"
  "quiet q b (updateRoundStep c r s) = quiet q b c"
  "quiet q b (enterPrevoteFetch ops c h r) = quiet q b c"
  "quiet q b (enterPrecommitFetch ops c h r) = quiet q b c"
  "quiet q b (precommitDone ops c r) = quiet q b c"
  "quiet q b (scheduleRound0 env c rs) = quiet q b c"
  by (simp_all add: quiet_def voteBroadcasts_def scheduleTimeout_def updateRoundStep_def
        enterPrevoteFetch_def enterPrecommitFetch_def precommitDone_def scheduleRound0_def Let_def)

lemma quiet_update [simp]:
  "quiet q b (c\<lparr>LockedRound := lr\<rparr>) = quiet q b c"
  "quiet q b (c\<lparr>LockedProposal := lp\<rparr>) = quiet q b c"
  "quiet q b (c\<lparr>Proposal := pr\<rparr>) = quiet q b c"
  "quiet q b (c\<lparr>Votes := vs\<rparr>) = quiet q b c"
  "quiet q b (c\<lparr>LastCommit := lc\<rparr>) = quiet q b c"
  "quiet q b (c\<lparr>CommitRound := cr\<rparr>) = quiet q b c"
  "quiet q b (c\<lparr>CommitTime := ct\<rparr>) = quiet q b c"
  "quiet q b (c\<lparr>StartTime := st\<rparr>) = quiet q b c"
  "quiet q b (c\<lparr>Height := hh\<rparr>) = quiet q b c"
  "quiet q b (c\<lparr>lastCommittedData := ld\<rparr>) = quiet q b c"
  "quiet q b (c\<lparr>hasRecvCommitRecords := hr\<rparr>) = quiet q b c"
  "quiet q b (c\<lparr>inFetch := fl\<rparr>) = quiet q b c"
  "quiet q b (c\<lparr>committed := cm\<rparr>) = quiet q b c"
  "quiet q b (c\<lparr>sent := sn\<rparr>) = quiet q b c"
  "quiet q b (c\<lparr>broadcast := broadcast c @ [MsgCommit rcd]\<rparr>) = quiet q b c"
  by (simp_all add: quiet_def voteBroadcasts_def isVoteMsg_def)

lemma quiet_signAddVote [simp]:
  "\<not> isValidator env \<Longrightarrow> quiet q b (fst (signAddVote env c v)) = quiet q b c"
  by (simp add: signAddVote_def)

lemma quiet_doPrevote [simp]:
  "\<not> isValidator env \<Longrightarrow> quiet q b (doPrevote env c h r) = quiet q b c"
  by (simp add: doPrevote_def Let_def)

lemma quiet_doPropose [simp]:
  "\<not> isValidator env \<Longrightarrow> quiet q b (doPropose env c h r) = quiet q b c"
  by (simp add: doPropose_def Let_def)

lemma quiet_updateToAppState:
  "quiet q b c \<Longrightarrow> ensures (updateToAppState ops env c a) (quiet q b) (quiet q b)"
  unfolding updateToAppState_def Let_def
  by (auto split: option.splits intro!: ensures_andThen [where P = "\<lambda>x. True"])

lemma quiet_enterPrevote:
  "\<not> isValidator env \<Longrightarrow> quiet q b c \<Longrightarrow> ensures (enterPrevote ops env c h r) (quiet q b) (quiet q b)"
  by (simp add: enterPrevote_def Let_def)

lemma quiet_enterPrevoteWait:
  "quiet q b c \<Longrightarrow> ensures (enterPrevoteWait ops env c h r) (quiet q b) (quiet q b)"
  by (simp add: enterPrevoteWait_def Let_def split: option.splits)

lemma quiet_enterPrecommitWait:
  "quiet q b c \<Longrightarrow> ensures (enterPrecommitWait ops env c h r) (quiet q b) (quiet q b)"
  by (simp add: enterPrecommitWait_def Let_def split: option.splits)

lemma quiet_enterPropose:
  "\<not> isValidator env \<Longrightarrow> quiet q b c \<Longrightarrow> ensures (enterPropose ops env c h r) (quiet q b) (quiet q b)"
  unfolding enterPropose_def Let_def
  by (auto intro!: quiet_enterPrevote)

lemma quiet_enterNewRound:
  "\<not> isValidator env \<Longrightarrow> quiet q b c \<Longrightarrow> ensures (enterNewRound ops env c h r) (quiet q b) (quiet q b)"
  unfolding enterNewRound_def Let_def
  by (auto split: option.splits intro!: quiet_enterPropose)

lemma quiet_fetchMissingVotes:
  "quiet q b c \<Longrightarrow> ensures (fetchMissingVotes ops env c) (quiet q b) (quiet q b)"
  unfolding fetchMissingVotes_def Let_def
  by (auto split: option.splits)

lemma quiet_enterPrecommit:
  "\<not> isValidator env \<Longrightarrow> quiet q b c \<Longrightarrow> ensures (enterPrecommit ops env c h r) (quiet q b) (quiet q b)"
  unfolding enterPrecommit_def Let_def
  by (simp split: option.splits)

lemma quiet_doCommit:
  "quiet q b c \<Longrightarrow> ensures (doCommit ops env c d) (quiet q b) (quiet q b)"
  unfolding doCommit_def Let_def
  by (auto split: option.splits sum.splits
        intro!: ensures_andThen [where P = "\<lambda>x. True"] ensures_andThen [OF quiet_updateToAppState])

lemma quiet_enterCommit:
  "quiet q b c \<Longrightarrow> ensures (enterCommit ops env c h r) (quiet q b) (quiet q b)"
  unfolding enterCommit_def Let_def
  by (auto split: option.splits intro!: quiet_doCommit)

lemma quiet_defaultSetProposal:
  "\<not> isValidator env \<Longrightarrow> quiet q b c \<Longrightarrow>
   ensures (defaultSetProposal ops env c v) (quiet q b) (\<lambda>t. quiet q b (snd t))"
  unfolding defaultSetProposal_def
  by (auto intro!: ensures_andThen [OF quiet_enterPrevote])

lemma quiet_addVoteLastCommit:
  "\<not> isValidator env \<Longrightarrow> quiet q b c \<Longrightarrow>
   ensures (addVoteLastCommit ops env c v) (quiet q b) (\<lambda>t. quiet q b (snd (snd t)))"
  unfolding addVoteLastCommit_def Let_def
  by (auto intro!: ensures_andThen [OF quiet_enterNewRound])

lemma quiet_prevotePolka [simp]: "quiet q b (prevotePolka ops c pv v) = quiet q b c"
  by (simp add: prevotePolka_def Let_def)

lemma quiet_addVotePrevote:
  "\<not> isValidator env \<Longrightarrow> quiet q b c \<Longrightarrow>
   ensures (addVotePrevote ops env c h v) (quiet q b) (quiet q b)"
  unfolding addVotePrevote_def Let_def
  by (auto split: option.splits
        intro!: quiet_enterNewRound quiet_enterPrecommit quiet_enterPrevoteWait quiet_enterPrevote)

lemma quiet_addVotePrecommit:
  "\<not> isValidator env \<Longrightarrow> quiet q b c \<Longrightarrow>
   ensures (addVotePrecommit ops env c h v) (quiet q b) (quiet q b)"
  unfolding addVotePrecommit_def Let_def
  by (auto split: option.splits
        intro!: ensures_andThen [OF quiet_enterNewRound] ensures_andThen [OF quiet_enterPrecommit]
                ensures_andThen [OF quiet_enterCommit] quiet_enterNewRound quiet_enterPrecommitWait)
lemma quiet_addVote:
  "\<not> isValidator env \<Longrightarrow> quiet q b c \<Longrightarrow>
   ensures (addVote ops env c v) (quiet q b) (\<lambda>t. quiet q b (snd (snd t)))"
  unfolding addVote_def Let_def
  by (auto split: option.splits
        intro!: quiet_addVoteLastCommit ensures_andThen [OF quiet_defaultSetProposal]
                ensures_andThen [OF quiet_addVotePrevote] ensures_andThen [OF quiet_addVotePrecommit])
lemma quiet_tryAddVote:
  "\<not> isValidator env \<Longrightarrow> quiet q b c \<Longrightarrow>
   ensures (tryAddVote ops env c v) (quiet q b) (\<lambda>t. quiet q b (snd (snd t)))"
  unfolding tryAddVote_def Let_def
  by (auto intro!: ensures_andThen [OF quiet_addVote])
lemma quiet_tryAddVotes:
  "\<not> isValidator env \<Longrightarrow> quiet q b c \<Longrightarrow>
   ensures (tryAddVotes ops env c vs) (quiet q b) (quiet q b)"
proof (induction vs arbitrary: c)
  case Nil
  then show ?case by simp
next
  case (Cons v vs)
  then show ?case
    by (auto intro!: ensures_andThen [OF quiet_tryAddVote])
qed

lemma quiet_handleFetch:
  "quiet q b c \<Longrightarrow> ensures (handleFetch ops env c m p) (quiet q b) (quiet q b)"
  unfolding handleFetch_def
  by (auto split: option.splits intro!: ensures_andThen [where P = "\<lambda>x. True"])
lemma quiet_handleFetchRsp:
  "\<not> isValidator env \<Longrightarrow> quiet q b c \<Longrightarrow>
   ensures (handleFetchRsp ops env c m p) (quiet q b) (quiet q b)"
  unfolding handleFetchRsp_def
  by (auto intro!: quiet_tryAddVotes)
lemma quiet_handleMsg:
  "\<not> isValidator env \<Longrightarrow> quiet q b c \<Longrightarrow>
   ensures (handleMsg ops env c mi) (quiet q b) (quiet q b)"
  unfolding handleMsg_def Let_def
  by (auto split: ConsensusMessage.splits
        intro!: quiet_tryAddVotes quiet_handleFetch quiet_handleFetchRsp)
lemma quiet_handleTimeout:
  "\<not> isValidator env \<Longrightarrow> quiet q b c \<Longrightarrow>
   ensures (handleTimeout ops env c ti rs) (quiet q b) (quiet q b)"
  unfolding handleTimeout_def
  by (auto split: RoundStepType.splits
        intro!: quiet_enterNewRound quiet_enterPropose quiet_enterPrevote quiet_fetchMissingVotes
                quiet_enterPrecommit ensures_andThen [OF quiet_enterPrecommit])

lemma quiet_handleEvent:
  "\<not> isValidator (eventEnv e) \<Longrightarrow> quiet q b c \<Longrightarrow>
   ensures (handleEvent ops c e) (quiet q b) (quiet q b)"
  by (cases e) (simp_all add: quiet_handleMsg quiet_handleTimeout)

lemma quiet_receiveRoutine:
  "\<forall>e \<in> set es. \<not> isValidator (eventEnv e) \<Longrightarrow> quiet q b c \<Longrightarrow>
   ensures (receiveRoutine ops c es) (quiet q b) (quiet q b)"
proof (induction es arbitrary: c)
  case Nil
  then show ?case by simp
next
  case (Cons e es)
  then show ?case
    by (auto intro!: ensures_andThen [OF quiet_handleEvent])
qed

text \<open>
  C10, as the spec states it, fails in its conclusion: a node that is not a validator
  does tally votes, those that arrive inside a \<^verbatim>\<open>Commit\<close> message (and inside a fetch
  response): \<^verbatim>\<open>handleMsg\<close> passes them to \<^verbatim>\<open>tryAddVote\<close> without asking \<^verbatim>\<open>isValidator\<close>. Here
  the node counts the precommit of a \<^verbatim>\<open>Commit\<close> for its height, commits on it, and keeps it
  as \<^verbatim>\<open>LastCommit\<close> of height 2.
\<close>

theorem observer_tallies_counterexample:
  "\<not> isValidator observerEnv \<and>
   map_sum fst (\<lambda>c. (Height c, LastCommit c, map cPrecommits (committed c)))
     (handleMsg soloOps observerEnv core1
        \<lparr>Msg = MsgCommit \<lparr>cHeight = 1, cRound = 0, cProposedData = 1,
                          cPrecommits = [soloVote PrecommitType 0 1], cCommitTime = 5,
                          cSignature = 7\<rparr>,
         Peer = Some 2\<rparr>)
     = Inr (2, Some [soloVote PrecommitType 0 1], [[soloVote PrecommitType 0 1]])"
  by (simp add: model_defs solo_defs observerEnv_def s_simps)

text \<open>
  C10, amended. On a node that the committee does not list as a validator, \<^verbatim>\<open>signAddVote\<close>
  does nothing (the vote is not signed, queued or broadcast) and \<^verbatim>\<open>handleMsg\<close> ignores every
  inbound \<^verbatim>\<open>Vote\<close> message. So no event handled on such a node emits a vote: whatever the
  message or the timeout, and whether the handler returns or panics, the internal queue
  and the broadcast votes are as before; the same holds for a run of events. Votes inside
  \<^verbatim>\<open>Commit\<close> and \<^verbatim>\<open>FetchVotesRsp\<close> messages are still tallied.
\<close>

theorem observer_emits_nothing:
  assumes "\<not> isValidator env"
  shows "signAddVote env c v = (c, v) \<and>
         handleMsg ops env c \<lparr>Msg = MsgVote v, Peer = p\<rparr> = Inr c \<and>
         ensures (handleMsg ops env c mi)
           (quiet (msgQueue c) (voteBroadcasts c)) (quiet (msgQueue c) (voteBroadcasts c)) \<and>
         ensures (handleTimeout ops env c ti rs)
           (quiet (msgQueue c) (voteBroadcasts c)) (quiet (msgQueue c) (voteBroadcasts c)) \<and>
         ((\<forall>e \<in> set es. \<not> isValidator (eventEnv e)) \<longrightarrow>
            ensures (receiveRoutine ops c es)
              (quiet (msgQueue c) (voteBroadcasts c)) (quiet (msgQueue c) (voteBroadcasts c)))"
proof -
  have q: "quiet (msgQueue c) (voteBroadcasts c) c" by (simp add: quiet_def)
  have a: "signAddVote env c v = (c, v)" using assms by (simp add: signAddVote_def)
  have b: "handleMsg ops env c \<lparr>Msg = MsgVote v, Peer = p\<rparr> = Inr c"
    using assms by (simp add: handleMsg_def)
  from a b quiet_handleMsg [OF assms q] quiet_handleTimeout [OF assms q] quiet_receiveRoutine [OF _ q]
  show ?thesis by blast
qed

theorem observer_emits_nothing_witness:
  "\<not> isValidator observerEnv \<and>
   signAddVote observerEnv core1 (soloVote PrevoteType 0 1) = (core1, soloVote PrevoteType 0 1) \<and>
   handleMsg soloOps observerEnv core1 \<lparr>Msg = MsgVote (soloVote PrevoteType 0 1), Peer = Some 2\<rparr>
     = Inr core1 \<and>
   ensures (handleTimeout soloOps observerEnv core1
              \<lparr>tiDuration = 0, tiHeight = 1, tiRound = 0, tiStep = RoundStepNewHeight\<rparr> core1)
     (quiet [] []) (quiet [] []) \<and>
   map_sum fst Step
     (handleTimeout soloOps observerEnv core1
        \<lparr>tiDuration = 0, tiHeight = 1, tiRound = 0, tiStep = RoundStepNewHeight\<rparr> core1)
     = Inr RoundStepPropose"
proof -
  have o: "\<not> isValidator observerEnv" by (simp add: isValidator_def solo_defs observerEnv_def)
  have e: "msgQueue core1 = []" "voteBroadcasts core1 = []"
    by (simp_all add: core1_def voteBroadcasts_def)
  have s: "map_sum fst Step
     (handleTimeout soloOps observerEnv core1
        \<lparr>tiDuration = 0, tiHeight = 1, tiRound = 0, tiStep = RoundStepNewHeight\<rparr> core1)
     = Inr RoundStepPropose"
    by (simp add: model_defs solo_defs observerEnv_def s_simps)
  from observer_emits_nothing [OF o, of core1 "soloVote PrevoteType 0 1" soloOps "Some 2" _
      "\<lparr>tiDuration = 0, tiHeight = 1, tiRound = 0, tiStep = RoundStepNewHeight\<rparr>" core1] o s
  show ?thesis unfolding e by blast
qed

subsection \<open>The lock invariant\<close>

lemma lockInv_cong:
  assumes "Round c' = Round c" and "LockedRound c' = LockedRound c"
    and "LockedProposal c' = LockedProposal c" and "Votes c' = Votes c"
  shows "lockInv ops c' = lockInv ops c"
  using assms by (simp add: lockInv_def)

lemma lockInv_frame [simp]:
  "lockInv ops (scheduleTimeout c d h r s) = lockInv ops c"
  "lockInv ops (scheduleRound0 env c rs) = lockInv ops c"
  "lockInv ops (fst (signAddVote env c v)) = lockInv ops c"
  "lockInv ops (doPrevote env c h r) = lockInv ops c"
  "lockInv ops (doPropose env c h r) = lockInv ops c"
  by (rule lockInv_cong;
      simp add: scheduleTimeout_def scheduleRound0_def signAddVote_def sendInternalMessage_def
        doPrevote_def doPropose_def Let_def)+

lemma lockInv_update [simp]:
  "lockInv ops (c\<lparr>Proposal := pr\<rparr>) = lockInv ops c"
  "lockInv ops (c\<lparr>LastCommit := lc\<rparr>) = lockInv ops c"
  "lockInv ops (c\<lparr>CommitRound := cr\<rparr>) = lockInv ops c"
  "lockInv ops (c\<lparr>CommitTime := ct\<rparr>) = lockInv ops c"
  "lockInv ops (c\<lparr>hasRecvCommitRecords := hr\<rparr>) = lockInv ops c"
  "lockInv ops (c\<lparr>inFetch := fl\<rparr>) = lockInv ops c"
  "lockInv ops (c\<lparr>committed := cm\<rparr>) = lockInv ops c"
  "lockInv ops (c\<lparr>sent := sn\<rparr>) = lockInv ops c"
  "lockInv ops (c\<lparr>broadcast := bc\<rparr>) = lockInv ops c"
  "lockInv ops (c\<lparr>Step := st\<rparr>) = lockInv ops c"
  by (simp_all add: lockInv_def)

lemma lockInv_updateRoundStep:
  "lockInv ops c \<Longrightarrow> 0 \<le>s r \<Longrightarrow> lockInv ops (updateRoundStep c r s)"
  by (simp add: lockInv_def updateRoundStep_def)

lemma lockInv_Round: "lockInv ops c \<Longrightarrow> 0 \<le>s Round c"
  by (simp add: lockInv_def)

lemma round_above: "0 \<le>s (a :: 64 word) \<Longrightarrow> \<not> r <s a \<Longrightarrow> 0 \<le>s r"
  by (simp add: s_simps)

lemma lockInv_fetch:
  "lockInv ops c \<Longrightarrow> 0 \<le>s r \<Longrightarrow> lockInv ops (enterPrevoteFetch ops c h r)"
  "lockInv ops c \<Longrightarrow> 0 \<le>s r \<Longrightarrow> lockInv ops (enterPrecommitFetch ops c h r)"
  "lockInv ops c \<Longrightarrow> 0 \<le>s r \<Longrightarrow> lockInv ops (precommitDone ops c r)"
  by (simp_all add: enterPrevoteFetch_def enterPrecommitFetch_def precommitDone_def Let_def
        updateRoundStep_def scheduleTimeout_def lockInv_def)

lemma lockInv_unlock:
  "lockInv ops c \<Longrightarrow> lockInv ops (c\<lparr>LockedRound := -1, LockedProposal := None\<rparr>)"
  by (simp add: lockInv_def)

lemma lockInv_updateToAppState:
  "lockInv ops c \<Longrightarrow> ensures (updateToAppState ops env c a) (\<lambda>x. True) (lockInv ops)"
  unfolding updateToAppState_def Let_def
  by (auto split: option.splits simp add: lockInv_def updateRoundStep_def s_simps
        intro!: ensures_andThen [where P = "\<lambda>x. True"])

lemma lockInv_reset:
  "updateToAppState ops env c (Some a) = Inr c' \<Longrightarrow> lockInv ops c'"
  unfolding updateToAppState_def Let_def
  by (auto split: if_splits simp add: lockInv_def updateRoundStep_def s_simps andThen_eq_Inr)

lemma lockInv_enterPrevote:
  "lockInv ops c \<Longrightarrow> ensures (enterPrevote ops env c h r) (\<lambda>x. True) (lockInv ops)"
  unfolding enterPrevote_def Let_def
  by (auto intro!: lockInv_fetch lockInv_updateRoundStep dest: lockInv_Round round_above)

lemma lockInv_enterPrevoteWait:
  "lockInv ops c \<Longrightarrow> ensures (enterPrevoteWait ops env c h r) (\<lambda>x. True) (lockInv ops)"
  unfolding enterPrevoteWait_def Let_def
  by (auto split: option.splits intro!: lockInv_updateRoundStep dest: lockInv_Round round_above)

lemma lockInv_enterPrecommitWait:
  "lockInv ops c \<Longrightarrow> ensures (enterPrecommitWait ops env c h r) (\<lambda>x. True) (lockInv ops)"
  unfolding enterPrecommitWait_def Let_def
  by (auto split: option.splits intro!: lockInv_updateRoundStep dest: lockInv_Round round_above)

lemma lockInv_enterPropose:
  "lockInv ops c \<Longrightarrow> ensures (enterPropose ops env c h r) (\<lambda>x. True) (lockInv ops)"
  unfolding enterPropose_def Let_def
  by (auto intro!: lockInv_enterPrevote lockInv_updateRoundStep dest: lockInv_Round round_above)

lemma lockInv_SetRound:
  assumes "polkaStable ops" and "lockInv ops c" and "Votes c = Some hvs"
  shows "lockInv ops (c\<lparr>Votes := Some (SetRound ops hvs r)\<rparr>)"
proof (cases "LockedProposal c")
  case None
  with assms(2) show ?thesis by (simp add: lockInv_def)
next
  case (Some lp)
  with assms(2,3) have "TwoThirdsMajority ops (Prevotes ops hvs (LockedRound c)) = (Proposed lp, True)"
    by (simp add: lockInv_def)
  with assms(1)
  have "TwoThirdsMajority ops (Prevotes ops (SetRound ops hvs r) (LockedRound c)) = (Proposed lp, True)"
    unfolding polkaStable_def by blast
  with Some assms(2) show ?thesis by (simp add: lockInv_def)
qed

lemma lockInv_AddVote:
  assumes "polkaStable ops" and "lockInv ops c" and "Votes c = Some hvs"
  shows "lockInv ops (c\<lparr>Votes := Some (snd (snd (hvsAddVote ops hvs v)))\<rparr>)"
proof (cases "LockedProposal c")
  case None
  with assms(2) show ?thesis by (simp add: lockInv_def)
next
  case (Some lp)
  with assms(2,3) have "TwoThirdsMajority ops (Prevotes ops hvs (LockedRound c)) = (Proposed lp, True)"
    by (simp add: lockInv_def)
  with assms(1)
  have "TwoThirdsMajority ops (Prevotes ops (snd (snd (hvsAddVote ops hvs v))) (LockedRound c))
          = (Proposed lp, True)"
    unfolding polkaStable_def by blast
  with Some assms(2) show ?thesis by (simp add: lockInv_def)
qed

lemma lockInv_enterNewRound:
  assumes "polkaStable ops" and "lockInv ops c"
  shows "ensures (enterNewRound ops env c h r) (\<lambda>x. True) (lockInv ops)"
proof (cases "Height c \<noteq> h \<or> r <s Round c \<or> (Round c = r \<and> Step c \<noteq> RoundStepNewHeight)")
  case True
  with assms(2) show ?thesis by (simp add: enterNewRound_def)
next
  case False
  then have r: "0 \<le>s r" using lockInv_Round [OF assms(2)] by (auto intro: round_above)
  define c2 where "c2 = (if r = 0 then updateRoundStep c r RoundStepNewRound
                         else (updateRoundStep c r RoundStepNewRound)\<lparr>Proposal := None\<rparr>)"
  have i2: "lockInv ops c2"
    using assms(2) r by (simp add: c2_def lockInv_updateRoundStep)
  have e: "enterNewRound ops env c h r =
             (case Votes c2 of None \<Rightarrow> Inl (NilPointer, c2)
              | Some hvs \<Rightarrow> enterPropose ops env (c2\<lparr>Votes := Some (SetRound ops hvs (r + 1))\<rparr>) h r)"
    unfolding enterNewRound_def if_not_P [OF False] Let_def c2_def
    by (cases "r = 0") (simp_all split: option.splits)
  show ?thesis
  proof (cases "Votes c2")
    case None
    with e show ?thesis by simp
  next
    case (Some hvs)
    with e lockInv_enterPropose [OF lockInv_SetRound [OF assms(1) i2 Some]]
    show ?thesis by simp
  qed
qed

lemma lockInv_fetchMissingVotes:
  "lockInv ops c \<Longrightarrow> ensures (fetchMissingVotes ops env c) (\<lambda>x. True) (lockInv ops)"
  unfolding fetchMissingVotes_def Let_def
  by (auto split: option.splits)

lemma lockInv_lock:
  assumes "lockInv ops c" and "0 \<le>s r" and "Votes c = Some hvs"
    and "snd (TwoThirdsMajority ops (Prevotes ops hvs r))"
    and "Proposal c \<noteq> None"
    and "Proposed (the (Proposal c)) = fst (TwoThirdsMajority ops (Prevotes ops hvs r))"
  shows "lockInv ops (c\<lparr>LockedRound := r, LockedProposal := Proposal c\<rparr>)"
proof -
  from assms(4,6)
  have "TwoThirdsMajority ops (Prevotes ops hvs r) = (Proposed (the (Proposal c)), True)"
    by (cases "TwoThirdsMajority ops (Prevotes ops hvs r)") simp
  with assms(1,2,3,5) show ?thesis by (auto simp add: lockInv_def)
qed

lemma lockInv_relock:
  assumes "lockInv ops c" and "0 \<le>s r" and "Votes c = Some hvs"
    and "snd (TwoThirdsMajority ops (Prevotes ops hvs r))"
    and "LockedProposal c \<noteq> None"
    and "Proposed (the (LockedProposal c)) = fst (TwoThirdsMajority ops (Prevotes ops hvs r))"
  shows "lockInv ops (c\<lparr>LockedRound := r\<rparr>)"
proof -
  from assms(4,6)
  have "TwoThirdsMajority ops (Prevotes ops hvs r) = (Proposed (the (LockedProposal c)), True)"
    by (cases "TwoThirdsMajority ops (Prevotes ops hvs r)") simp
  with assms(1,2,3,5) show ?thesis by (auto simp add: lockInv_def)
qed

lemma lockInv_enterPrecommit:
  assumes "lockInv ops c"
  shows "ensures (enterPrecommit ops env c h r) (\<lambda>x. True) (lockInv ops)"
proof (cases "Height c \<noteq> h \<or> r <s Round c \<or>
              (Round c = r \<and> stepNum RoundStepPrecommit \<le> stepNum (Step c))")
  case True
  with assms show ?thesis by (simp add: enterPrecommit_def)
next
  case False
  then have r: "0 \<le>s r" using lockInv_Round [OF assms] by (auto intro: round_above)
  show ?thesis
  proof (cases "Votes c")
    case None
    show ?thesis
      unfolding enterPrecommit_def if_not_P [OF False] None by simp
  next
    case (Some hvs)
    note body = enterPrecommit_def [of ops env c h r, unfolded if_not_P [OF False] Some option.case]
    have d: "lockInv ops (precommitDone ops (fst (signAddVote env c' v)) r)"
      if "lockInv ops c'" for c' v
      using that r by (simp add: lockInv_fetch)
    have u: "lockInv ops (c\<lparr>LockedRound := -1, LockedProposal := None\<rparr>)"
      using assms by (rule lockInv_unlock)
    show ?thesis
      unfolding body Let_def
      by (simp add: d assms u lockInv_lock [OF assms r Some] lockInv_relock [OF assms r Some])
  qed
qed

lemma lockInv_doCommit:
  "lockInv ops c \<Longrightarrow> ensures (doCommit ops env c d) (\<lambda>x. True) (lockInv ops)"
  unfolding doCommit_def Let_def
  by (auto split: option.splits sum.splits
        intro!: ensures_andThen [where P = "\<lambda>x. True"]
                ensures_andThen [OF lockInv_updateToAppState])

lemma lockInv_enterCommit:
  "lockInv ops c \<Longrightarrow> ensures (enterCommit ops env c h r) (\<lambda>x. True) (lockInv ops)"
  unfolding enterCommit_def Let_def
  by (auto split: option.splits
        intro!: lockInv_doCommit lockInv_updateRoundStep dest: lockInv_Round)

lemma lockInv_defaultSetProposal:
  "lockInv ops c \<Longrightarrow>
   ensures (defaultSetProposal ops env c v) (\<lambda>x. True) (\<lambda>t. lockInv ops (snd t))"
  unfolding defaultSetProposal_def
  by (auto intro!: ensures_andThen [OF lockInv_enterPrevote])

lemma lockInv_addVoteLastCommit:
  "polkaStable ops \<Longrightarrow> lockInv ops c \<Longrightarrow>
   ensures (addVoteLastCommit ops env c v) (\<lambda>x. True) (\<lambda>t. lockInv ops (snd (snd t)))"
  unfolding addVoteLastCommit_def Let_def
  by (auto intro!: ensures_andThen [OF lockInv_enterNewRound])

lemma lockInv_prevotePolka:
  "lockInv ops c \<Longrightarrow> lockInv ops (prevotePolka ops c pv v)"
  by (simp add: prevotePolka_def Let_def lockInv_unlock)

lemma lockInv_addVotePrevote:
  "polkaStable ops \<Longrightarrow> lockInv ops c \<Longrightarrow>
   ensures (addVotePrevote ops env c h v) (\<lambda>x. True) (lockInv ops)"
  unfolding addVotePrevote_def Let_def
  by (auto split: option.splits
        intro!: lockInv_enterNewRound lockInv_enterPrecommit lockInv_enterPrevoteWait
                lockInv_enterPrevote lockInv_prevotePolka)

lemma lockInv_addVotePrecommit:
  "polkaStable ops \<Longrightarrow> lockInv ops c \<Longrightarrow>
   ensures (addVotePrecommit ops env c h v) (\<lambda>x. True) (lockInv ops)"
  unfolding addVotePrecommit_def Let_def
  by (auto split: option.splits
        intro!: ensures_andThen [OF lockInv_enterNewRound] ensures_andThen [OF lockInv_enterPrecommit]
                ensures_andThen [OF lockInv_enterCommit] lockInv_enterNewRound
                lockInv_enterPrecommitWait)

lemma lockInv_addVote:
  "polkaStable ops \<Longrightarrow> lockInv ops c \<Longrightarrow>
   ensures (addVote ops env c v) (\<lambda>x. True) (\<lambda>t. lockInv ops (snd (snd t)))"
  unfolding addVote_def Let_def
  by (auto split: option.splits
        intro!: lockInv_addVoteLastCommit ensures_andThen [OF lockInv_defaultSetProposal]
                ensures_andThen [OF lockInv_addVotePrevote]
                ensures_andThen [OF lockInv_addVotePrecommit] lockInv_AddVote)

lemma lockInv_tryAddVote:
  "polkaStable ops \<Longrightarrow> lockInv ops c \<Longrightarrow>
   ensures (tryAddVote ops env c v) (\<lambda>x. True) (\<lambda>t. lockInv ops (snd (snd t)))"
  unfolding tryAddVote_def Let_def
  by (auto intro!: ensures_andThen [OF lockInv_addVote])

lemma lockInv_tryAddVotes:
  "polkaStable ops \<Longrightarrow> lockInv ops c \<Longrightarrow>
   ensures (tryAddVotes ops env c vs) (\<lambda>x. True) (lockInv ops)"
proof (induction vs arbitrary: c)
  case Nil
  then show ?case by simp
next
  case (Cons v vs)
  then show ?case
    by (auto intro!: ensures_andThen [OF lockInv_tryAddVote])
qed

lemma lockInv_handleFetch:
  "lockInv ops c \<Longrightarrow> ensures (handleFetch ops env c m p) (\<lambda>x. True) (lockInv ops)"
  unfolding handleFetch_def
  by (auto split: option.splits intro!: ensures_andThen [where P = "\<lambda>x. True"])

lemma lockInv_handleFetchRsp:
  "polkaStable ops \<Longrightarrow> lockInv ops c \<Longrightarrow>
   ensures (handleFetchRsp ops env c m p) (\<lambda>x. True) (lockInv ops)"
  unfolding handleFetchRsp_def
  by (auto intro!: lockInv_tryAddVotes)

lemma lockInv_handleMsg:
  "polkaStable ops \<Longrightarrow> lockInv ops c \<Longrightarrow>
   ensures (handleMsg ops env c mi) (\<lambda>x. True) (lockInv ops)"
  unfolding handleMsg_def Let_def
  by (auto split: ConsensusMessage.splits
        intro!: lockInv_tryAddVotes lockInv_handleFetch lockInv_handleFetchRsp
                ensures_andThen [OF lockInv_tryAddVote])

lemma lockInv_handleTimeout:
  "polkaStable ops \<Longrightarrow> lockInv ops c \<Longrightarrow>
   ensures (handleTimeout ops env c ti rs) (\<lambda>x. True) (lockInv ops)"
  unfolding handleTimeout_def
  by (auto split: RoundStepType.splits
        intro!: lockInv_enterNewRound lockInv_enterPropose lockInv_enterPrevote
                lockInv_fetchMissingVotes lockInv_enterPrecommit
                ensures_andThen [OF lockInv_enterPrecommit])

lemma lockInv_handleEvent:
  "polkaStable ops \<Longrightarrow> lockInv ops c \<Longrightarrow>
   ensures (handleEvent ops c e) (\<lambda>x. True) (lockInv ops)"
  by (cases e) (simp_all add: lockInv_handleMsg lockInv_handleTimeout)

lemma lockInv_receiveRoutine:
  "polkaStable ops \<Longrightarrow> lockInv ops c \<Longrightarrow>
   ensures (receiveRoutine ops c es) (\<lambda>x. True) (lockInv ops)"
proof (induction es arbitrary: c)
  case Nil
  then show ?case by simp
next
  case (Cons e es)
  then show ?case
    by (auto intro!: ensures_andThen [OF lockInv_handleEvent])
qed

lemma lockInv_enter:
  assumes "polkaStable ops" and "lockInv ops c"
  shows "ensures (enter t ops env c h r) (\<lambda>x. True) (lockInv ops)"
  using assms
  by (cases t)
     (simp_all add: lockInv_enterNewRound lockInv_enterPropose lockInv_enterPrevote
        lockInv_enterPrevoteWait lockInv_enterPrecommit lockInv_enterPrecommitWait
        lockInv_enterCommit)

lemma lockInv_meaning:
  assumes "lockInv ops c"
  shows "(0 \<le>s LockedRound c \<longleftrightarrow> LockedProposal c \<noteq> None) \<and>
         (\<forall>lp. LockedProposal c = Some lp \<longrightarrow>
            (\<exists>hvs r'. Votes c = Some hvs \<and> r' \<le>s LockedRound c \<and>
               TwoThirdsMajority ops (Prevotes ops hvs r') = (Proposed lp, True)))"
proof -
  have m1: "\<not> 0 \<le>s (-1 :: 64 word)" by (simp add: s_simps)
  have rf: "LockedRound c \<le>s LockedRound c" by (simp add: s_simps)
  from assms m1 have "0 \<le>s LockedRound c \<longleftrightarrow> LockedProposal c \<noteq> None"
    by (auto simp add: lockInv_def)
  moreover have "\<exists>hvs r'. Votes c = Some hvs \<and> r' \<le>s LockedRound c \<and>
               TwoThirdsMajority ops (Prevotes ops hvs r') = (Proposed lp, True)"
    if "LockedProposal c = Some lp" for lp
    using assms that rf by (auto simp add: lockInv_def)
  ultimately show ?thesis by blast
qed

lemma soloOps_stable: "polkaStable soloOps"
  by (auto simp add: polkaStable_def soloOps_def split: list.splits if_splits)

text \<open>
  C2. Let the vote sets keep a +2/3 prevote majority once it is reached (\<open>polkaStable\<close>).
  The state of the lock described by \<open>lockInv\<close> holds after \<^verbatim>\<open>updateToAppState\<close> has reset
  the core for a height, and after every run of events from there: in every state between
  two events \<^verbatim>\<open>LockedRound >= 0\<close> holds if and only if \<^verbatim>\<open>LockedProposal\<close> is not nil, and when
  the core is locked, the value of the locked proposal is the +2/3 prevote majority of a
  round \<open>\<le>\<close> \<^verbatim>\<open>LockedRound\<close> (of \<^verbatim>\<open>LockedRound\<close> itself) in the vote set of the current height.
  Each operation that touches the lock keeps it: \<^verbatim>\<open>enterPrecommit\<close> (lock, relock, unlock),
  \<^verbatim>\<open>addVote\<close> (unlock on a newer polka) and \<^verbatim>\<open>updateToAppState\<close> (reset), whenever they
  return; so does each of the seven transitions, so the state of the lock also holds
  between the transitions that one event runs.
\<close>

theorem lock_invariant:
  assumes "polkaStable ops"
  shows "(updateToAppState ops env0 c0 (Some a) = Inr c1 \<and> receiveRoutine ops c1 es = Inr c
            \<longrightarrow> lockInv ops c) \<and>
         (lockInv ops c \<longrightarrow>
            (0 \<le>s LockedRound c \<longleftrightarrow> LockedProposal c \<noteq> None) \<and>
            (\<forall>lp. LockedProposal c = Some lp \<longrightarrow>
               (\<exists>hvs r'. Votes c = Some hvs \<and> r' \<le>s LockedRound c \<and>
                  TwoThirdsMajority ops (Prevotes ops hvs r') = (Proposed lp, True)))) \<and>
         (lockInv ops c \<longrightarrow>
            ensures (enterPrecommit ops env c h r) (\<lambda>x. True) (lockInv ops) \<and>
            ensures (addVote ops env c v) (\<lambda>x. True) (\<lambda>t. lockInv ops (snd (snd t))) \<and>
            ensures (updateToAppState ops env c a') (\<lambda>x. True) (lockInv ops) \<and>
            ensures (enter t ops env c h' r') (\<lambda>x. True) (lockInv ops) \<and>
            ensures (receiveRoutine ops c es') (\<lambda>x. True) (lockInv ops))"
proof -
  have "lockInv ops c"
    if u: "updateToAppState ops env0 c0 (Some a) = Inr c1" and r: "receiveRoutine ops c1 es = Inr c"
  proof -
    from u have "lockInv ops c1" by (rule lockInv_reset)
    from lockInv_receiveRoutine [OF assms this, of es] r show ?thesis by simp
  qed
  with lockInv_meaning [of ops c] lockInv_enterPrecommit [of ops c env h r]
    lockInv_addVote [OF assms, of c env v] lockInv_updateToAppState [of ops c env a']
    lockInv_enter [OF assms, of c t env h' r'] lockInv_receiveRoutine [OF assms, of c es']
  show ?thesis by blast
qed

theorem lock_invariant_witness:
  "polkaStable soloOps \<and>
   updateToAppState soloOps soloEnv core0 (Some \<lparr>LastHeight = 0, LastProposedData = 0\<rparr>)
     = Inr core1 \<and>
   map_sum fst (\<lambda>c. (LockedRound c, LockedProposal c, Votes c, Round c))
     (receiveRoutine soloOps core1 soloRun)
     = Inr (0, Some (soloVote ProposalType 0 1), Some [soloVote PrevoteType 0 1], 0) \<and>
   TwoThirdsMajority soloOps (Prevotes soloOps [soloVote PrevoteType 0 1] 0) = (1, True) \<and>
   ensures (receiveRoutine soloOps core1 soloRun) (\<lambda>x. True) (lockInv soloOps)"
proof -
  have u: "updateToAppState soloOps soloEnv core0 (Some \<lparr>LastHeight = 0, LastProposedData = 0\<rparr>)
             = Inr core1"
    by (simp add: model_defs solo_defs core0_def soloRun_def s_simps)
  have r: "map_sum fst (\<lambda>c. (LockedRound c, LockedProposal c, Votes c, Round c))
     (receiveRoutine soloOps core1 soloRun)
     = Inr (0, Some (soloVote ProposalType 0 1), Some [soloVote PrevoteType 0 1], 0)"
    by (simp add: model_defs solo_defs core0_def soloRun_def s_simps)
  then obtain c where c: "receiveRoutine soloOps core1 soloRun = Inr c"
    by (cases "receiveRoutine soloOps core1 soloRun") auto
  from lock_invariant [OF soloOps_stable, of soloEnv core0 "\<lparr>LastHeight = 0, LastProposedData = 0\<rparr>"
      core1 soloRun c] u c
  have i: "lockInv soloOps c" by blast
  with c have e: "ensures (receiveRoutine soloOps core1 soloRun) (\<lambda>x. True) (lockInv soloOps)"
    by simp
  have m: "TwoThirdsMajority soloOps (Prevotes soloOps [soloVote PrevoteType 0 1] 0) = (1, True)"
    by (simp add: solo_defs)
  from soloOps_stable u r m e show ?thesis by blast
qed

end
